theory Spec2Isabelle
  imports Complex_Main "HOL-Library.Sublist" "HOL-Library.List_Lexorder"
    "HOL-Library.Product_Lexorder" "HOL-Library.Log_Nat"
begin

section \<open>Python strings\<close>

text \<open>
  A Python \<open>str\<close> is a sequence of Unicode code points. Combining marks such as
  U+0301 take part in \<open>normaliza\<close>, so a string is modelled as the list of its code
  points (natural numbers), not as a list of 8-bit characters. \<open>lit\<close> turns an ASCII
  literal of the source into that representation; the few non-ASCII letters of the
  source's literals are written by their code points.
\<close>

type_synonym str = "nat list"

definition lit :: "string \<Rightarrow> str" where
  "lit s = map of_char s"

text \<open>
  \<open>str.isspace\<close> per character: the full list of code points Python 3 treats as
  whitespace. \<open>str.strip()\<close> removes them from both ends.
\<close>

definition py_isspace :: "nat \<Rightarrow> bool" where
  "py_isspace c =
     ((9 \<le> c \<and> c \<le> 13) \<or> (28 \<le> c \<and> c \<le> 32) \<or> c = 133 \<or> c = 160 \<or>
      c = 5760 \<or> (8192 \<le> c \<and> c \<le> 8202) \<or> c = 8232 \<or> c = 8233 \<or>
      c = 8239 \<or> c = 8287 \<or> c = 12288)"

definition py_strip :: "str \<Rightarrow> str" where
  "py_strip s = rev (dropWhile py_isspace (rev (dropWhile py_isspace s)))"

text \<open>
  The Unicode character database is tabulated for the blocks Basic Latin and Latin-1
  Supplement (U+0000 to U+00FF) and Combining Diacritical Marks (U+0300 to U+036F),
  which cover Spanish clinical text. On these blocks \<open>str.lower()\<close> acts code point
  by code point, the canonical decompositions are the 57 entries of \<open>decomp_table\<close>
  (all between U+00C0 and U+00FF or between U+0340 and U+0344),
  and the characters of general category Mn are exactly U+0300 to U+036F. Code points
  outside the two blocks are left alone by \<open>lower_cp\<close> and \<open>nfd_cp\<close> and are not
  counted as Mn; no concrete input below uses one.

  NFD also reorders each run of combining marks by combining class. In the tabulated
  blocks every character with a non-zero combining class has category Mn, so the
  reordering only permutes characters that \<open>normaliza\<close> deletes right after; \<open>py_nfd\<close>
  therefore is the decomposition alone.
\<close>

definition lower_cp :: "nat \<Rightarrow> nat" where
  "lower_cp c = (if (65 \<le> c \<and> c \<le> 90) \<or> (192 \<le> c \<and> c \<le> 222 \<and> c \<noteq> 215)
                 then c + 32 else c)"

definition py_lower :: "str \<Rightarrow> str" where
  "py_lower s = map lower_cp s"

definition decomp_table :: "(nat \<times> nat list) list" where
  "decomp_table =
    [(192, [65, 768]), (193, [65, 769]), (194, [65, 770]), (195, [65, 771]),
     (196, [65, 776]), (197, [65, 778]), (199, [67, 807]), (200, [69, 768]),
     (201, [69, 769]), (202, [69, 770]), (203, [69, 776]), (204, [73, 768]),
     (205, [73, 769]), (206, [73, 770]), (207, [73, 776]), (209, [78, 771]),
     (210, [79, 768]), (211, [79, 769]), (212, [79, 770]), (213, [79, 771]),
     (214, [79, 776]), (217, [85, 768]), (218, [85, 769]), (219, [85, 770]),
     (220, [85, 776]), (221, [89, 769]), (224, [97, 768]), (225, [97, 769]),
     (226, [97, 770]), (227, [97, 771]), (228, [97, 776]), (229, [97, 778]),
     (231, [99, 807]), (232, [101, 768]), (233, [101, 769]), (234, [101, 770]),
     (235, [101, 776]), (236, [105, 768]), (237, [105, 769]), (238, [105, 770]),
     (239, [105, 776]), (241, [110, 771]), (242, [111, 768]), (243, [111, 769]),
     (244, [111, 770]), (245, [111, 771]), (246, [111, 776]), (249, [117, 768]),
     (250, [117, 769]), (251, [117, 770]), (252, [117, 776]), (253, [121, 769]),
     (255, [121, 776]), (832, [768]), (833, [769]), (835, [787]), (836, [776, 769])]"

definition nfd_cp :: "nat \<Rightarrow> nat list" where
  "nfd_cp c =
     (if c < 192 \<or> (255 < c \<and> c < 832) \<or> 836 < c then [c]
      else case map_of decomp_table c of None \<Rightarrow> [c] | Some d \<Rightarrow> d)"

definition py_nfd :: "str \<Rightarrow> str" where
  "py_nfd s = concat (map nfd_cp s)"

definition is_Mn :: "nat \<Rightarrow> bool" where
  "is_Mn c = (768 \<le> c \<and> c \<le> 879)"

text \<open>
  The argument of \<open>normaliza\<close> is any Python object: \<open>None\<close>, a string, or another
  object, which is represented by the text that \<open>str()\<close> gives for it.
\<close>

datatype objeto = PyNone | PyStr str | PyObj str

section \<open>UTILIDADES\<close>

definition normaliza :: "objeto \<Rightarrow> str" where
  "normaliza texto =
     (let texto1 = (case texto of PyStr s \<Rightarrow> s | PyNone \<Rightarrow> [] | PyObj s \<Rightarrow> s);
          texto2 = py_strip (py_lower texto1)
      in filter (\<lambda>c. \<not> is_Mn c) (py_nfd texto2))"

text \<open>The substring test \<open>sub in s\<close> of Python.\<close>

fun contiene :: "str \<Rightarrow> str \<Rightarrow> bool" where
  "contiene sub [] = (sub = [])"
| "contiene sub (c # s) = (prefix sub (c # s) \<or> contiene sub s)"

text \<open>\<open>x or ""\<close> on a string.\<close>

definition o_vacio :: "str \<Rightarrow> str" where
  "o_vacio s = (if s = [] then [] else s)"

definition MEDICAMENTOS_DIABETES :: "str list" where
  "MEDICAMENTOS_DIABETES =
    [lit ''insulina'', lit ''metformina'', lit ''dapagliflozina'',
     lit ''vildagliptina'', lit ''sitagliptina'']"

definition MEDICAMENTOS_HTA :: "str list" where
  "MEDICAMENTOS_HTA =
    [lit ''losartan'', lit ''losart'' @ [225] @ lit ''n'', lit ''amlodipina'',
     lit ''carvedilol'', lit ''hidroclorotiazida'', lit ''bisoprolol'', lit ''enalapril'',
     lit ''telmisartan'', lit ''telmisart'' @ [225] @ lit ''n'',
     lit ''valsartan'', lit ''valsart'' @ [225] @ lit ''n'']"

definition MEDICAMENTOS_HIPOTIROIDISMO :: "str list" where
  "MEDICAMENTOS_HIPOTIROIDISMO = [lit ''levotiroxina'']"

text \<open>
  The three detection flags are local variables of \<open>clasificar_paciente\<close>; each is a
  function of the two normalised texts.
\<close>

definition es_diabetico :: "str \<Rightarrow> str \<Rightarrow> bool" where
  "es_diabetico diag_norm trat_norm =
     (contiene (lit ''diabetes'') diag_norm \<or>
      contiene (lit ''dmt2'') diag_norm \<or>
      contiene (lit ''dm2'') diag_norm \<or>
      contiene (lit ''mellitus tipo 2'') diag_norm \<or>
      list_ex (\<lambda>med. contiene med trat_norm) MEDICAMENTOS_DIABETES)"

definition es_hipertenso :: "str \<Rightarrow> str \<Rightarrow> bool" where
  "es_hipertenso diag_norm trat_norm =
     (contiene (lit ''hipertension'') diag_norm \<or>
      contiene (lit ''hipertensi'' @ [243] @ lit ''n arterial'') diag_norm \<or>
      contiene (lit ''hta'') diag_norm \<or>
      list_ex (\<lambda>med. contiene med trat_norm) MEDICAMENTOS_HTA)"

definition es_hipotiroideo :: "str \<Rightarrow> str \<Rightarrow> bool" where
  "es_hipotiroideo diag_norm trat_norm =
     (contiene (lit ''hipotiroidismo'') diag_norm \<or>
      contiene (lit ''hipot'') diag_norm \<or>
      list_ex (\<lambda>med. contiene med trat_norm) MEDICAMENTOS_HIPOTIROIDISMO)"

definition clasificar_paciente :: "str \<Rightarrow> str \<Rightarrow> str" where
  "clasificar_paciente diagnostico tratamiento =
     (let diag_norm = normaliza (PyStr (o_vacio diagnostico));
          trat_norm = normaliza (PyStr (o_vacio tratamiento))
      in if es_diabetico diag_norm trat_norm \<and> es_hipertenso diag_norm trat_norm
           then lit ''mixto''
         else if es_diabetico diag_norm trat_norm then lit ''diabetes''
         else if es_hipertenso diag_norm trat_norm then lit ''hta''
         else if es_hipotiroideo diag_norm trat_norm then lit ''hipotiroidismo''
         else lit ''ninguno'')"

section \<open>Condition classifier\<close>

lemmas texto_defs = normaliza_def py_strip_def py_lower_def lower_cp_def py_nfd_def
  nfd_cp_def is_Mn_def py_isspace_def lit_def

lemma o_vacio_id: "o_vacio s = s"
  by (simp add: o_vacio_def)

lemma normaliza_vacio: "normaliza (PyStr []) = []"
  by (simp add: texto_defs)

lemma lit_categorias_distinct:
  "lit ''mixto'' \<noteq> lit ''diabetes''" "lit ''mixto'' \<noteq> lit ''hta''"
  by (simp_all add: lit_def)

lemma flags_vacio:
  "\<not> es_diabetico [] []" "\<not> es_hipertenso [] []" "\<not> es_hipotiroideo [] []"
  by (simp_all add: es_diabetico_def es_hipertenso_def es_hipotiroideo_def lit_def
      MEDICAMENTOS_DIABETES_def MEDICAMENTOS_HTA_def MEDICAMENTOS_HIPOTIROIDISMO_def)

text \<open>
  C1. For every diagnosis and treatment text: when the input is detected as both
  diabetic and hypertensive the result is \<open>mixto\<close>, and neither \<open>diabetes\<close> nor
  \<open>hta\<close>; otherwise the first category detected in the order diabetes, hta,
  hipotiroidismo is returned, and \<open>ninguno\<close> when none is detected. Two empty texts
  give \<open>ninguno\<close>.
\<close>

theorem clasificar_paciente_precedence:
  fixes diagnostico tratamiento :: str
  defines "dn \<equiv> normaliza (PyStr diagnostico)"
      and "tn \<equiv> normaliza (PyStr tratamiento)"
  shows "(es_diabetico dn tn \<and> es_hipertenso dn tn \<longrightarrow>
            clasificar_paciente diagnostico tratamiento = lit ''mixto'' \<and>
            clasificar_paciente diagnostico tratamiento \<noteq> lit ''diabetes'' \<and>
            clasificar_paciente diagnostico tratamiento \<noteq> lit ''hta'') \<and>
         (es_diabetico dn tn \<and> \<not> es_hipertenso dn tn \<longrightarrow>
            clasificar_paciente diagnostico tratamiento = lit ''diabetes'') \<and>
         (\<not> es_diabetico dn tn \<and> es_hipertenso dn tn \<longrightarrow>
            clasificar_paciente diagnostico tratamiento = lit ''hta'') \<and>
         (\<not> es_diabetico dn tn \<and> \<not> es_hipertenso dn tn \<and> es_hipotiroideo dn tn \<longrightarrow>
            clasificar_paciente diagnostico tratamiento = lit ''hipotiroidismo'') \<and>
         (\<not> es_diabetico dn tn \<and> \<not> es_hipertenso dn tn \<and> \<not> es_hipotiroideo dn tn \<longrightarrow>
            clasificar_paciente diagnostico tratamiento = lit ''ninguno'') \<and>
         clasificar_paciente [] [] = lit ''ninguno''"
proof -
  have vacio: "clasificar_paciente [] [] = lit ''ninguno''"
    by (simp add: clasificar_paciente_def o_vacio_id normaliza_vacio flags_vacio)
  have resto: "clasificar_paciente diagnostico tratamiento =
      (if es_diabetico dn tn \<and> es_hipertenso dn tn then lit ''mixto''
       else if es_diabetico dn tn then lit ''diabetes''
       else if es_hipertenso dn tn then lit ''hta''
       else if es_hipotiroideo dn tn then lit ''hipotiroidismo''
       else lit ''ninguno'')"
    by (simp add: clasificar_paciente_def o_vacio_id Let_def dn_def tn_def)
  show ?thesis
    using vacio lit_categorias_distinct by (simp add: resto)
qed

theorem clasificar_paciente_precedence_witness:
  "es_diabetico (normaliza (PyStr (lit ''Diabetes''))) (normaliza (PyStr (lit ''Losartan''))) \<and>
   es_hipertenso (normaliza (PyStr (lit ''Diabetes''))) (normaliza (PyStr (lit ''Losartan''))) \<and>
   clasificar_paciente (lit ''Diabetes'') (lit ''Losartan'') = lit ''mixto'' \<and>
   clasificar_paciente (lit ''Diabetes'') (lit ''Losartan'') \<noteq> lit ''diabetes''"
proof -
  have n1: "normaliza (PyStr (lit ''Diabetes'')) = lit ''diabetes''"
    by (simp add: texto_defs)
  have n2: "normaliza (PyStr (lit ''Losartan'')) = lit ''losartan''"
    by (simp add: texto_defs)
  have d: "es_diabetico (lit ''diabetes'') (lit ''losartan'')"
    by (simp add: es_diabetico_def lit_def)
  have h: "es_hipertenso (lit ''diabetes'') (lit ''losartan'')"
    by (simp add: es_hipertenso_def MEDICAMENTOS_HTA_def lit_def)
  show ?thesis
    using d h clasificar_paciente_precedence [of "lit ''Diabetes''" "lit ''Losartan''"]
    unfolding n1 n2 by blast
qed

section \<open>Python floats\<close>

text \<open>
  A Python \<open>float\<close> is an IEEE 754 binary64 number. Its finite values are rational
  numbers, so the model is exact: \<open>Fin x\<close> holds the rational \<open>x\<close> the double stands
  for, and every operation rounds the exact result to the nearest double, ties to the
  even significand (\<open>rnd64\<close>), overflowing to an infinity and underflowing through the
  subnormal numbers to zero. The two zeros of binary64 compare equal in Python and are
  one value here.
\<close>

datatype pyfloat = Fin rat | PInf | NInf | NaN

datatype pyerror = ValueError | ZeroDivisionError | OverflowError

definition pow2 :: "int \<Rightarrow> rat" where
  "pow2 e = (if 0 \<le> e then 2 ^ nat e else 1 / 2 ^ nat (- e))"

text \<open>\<open>ilog2 x\<close> is the exponent \<open>e\<close> with \<open>2^e \<le> x < 2^(e+1)\<close>, for positive \<open>x\<close>.\<close>

definition ilog2 :: "rat \<Rightarrow> int" where
  "ilog2 x = (let (p, q) = quotient_of x; d = bitlen p - bitlen q
              in if pow2 d \<le> x then d else d - 1)"

text \<open>Rounding to the nearest integer, ties to even.\<close>

definition rhe :: "rat \<Rightarrow> int" where
  "rhe x = (let f = \<lfloor>x\<rfloor>; d = x - of_int f
            in if d < 1 / 2 then f else if 1 / 2 < d then f + 1
               else if even f then f else f + 1)"

definition rnd64 :: "rat \<Rightarrow> pyfloat" where
  "rnd64 x =
     (if x = 0 then Fin 0
      else let e = max (ilog2 \<bar>x\<bar>) (- 1022);
               q = pow2 (e - 52);
               r = of_int (rhe (x / q)) * q
           in if pow2 1024 \<le> \<bar>r\<bar> then (if 0 < x then PInf else NInf) else Fin r)"

text \<open>\<open>a * b\<close> on floats.\<close>

fun fmul :: "pyfloat \<Rightarrow> pyfloat \<Rightarrow> pyfloat" where
  "fmul NaN _ = NaN"
| "fmul _ NaN = NaN"
| "fmul (Fin a) (Fin b) = rnd64 (a * b)"
| "fmul (Fin a) PInf = (if a = 0 then NaN else if 0 < a then PInf else NInf)"
| "fmul (Fin a) NInf = (if a = 0 then NaN else if 0 < a then NInf else PInf)"
| "fmul PInf (Fin b) = (if b = 0 then NaN else if 0 < b then PInf else NInf)"
| "fmul NInf (Fin b) = (if b = 0 then NaN else if 0 < b then NInf else PInf)"
| "fmul PInf PInf = PInf"
| "fmul PInf NInf = NInf"
| "fmul NInf PInf = NInf"
| "fmul NInf NInf = PInf"

text \<open>
  \<open>a / b\<close> on floats: Python raises \<open>ZeroDivisionError\<close> whenever the divisor is a
  zero, whatever the dividend; every other case is the IEEE quotient.
\<close>

fun fdiv :: "pyfloat \<Rightarrow> pyfloat \<Rightarrow> pyerror + pyfloat" where
  "fdiv a (Fin b) =
     (if b = 0 then Inl ZeroDivisionError
      else case a of
             Fin x \<Rightarrow> Inr (rnd64 (x / b))
           | PInf \<Rightarrow> Inr (if 0 < b then PInf else NInf)
           | NInf \<Rightarrow> Inr (if 0 < b then NInf else PInf)
           | NaN \<Rightarrow> Inr NaN)"
| "fdiv a NaN = Inr NaN"
| "fdiv (Fin x) _ = Inr (Fin 0)"
| "fdiv _ _ = Inr NaN"

text \<open>\<open>e <= 0\<close>: false for a NaN.\<close>

fun fle0 :: "pyfloat \<Rightarrow> bool" where
  "fle0 (Fin a) = (a \<le> 0)"
| "fle0 NInf = True"
| "fle0 PInf = False"
| "fle0 NaN = False"

text \<open>
  \<open>round(x, 2)\<close>: CPython prints the exact binary value of \<open>x\<close> with two decimals,
  correctly rounded (ties to even), and reads the decimal string back as a double; it
  raises \<open>OverflowError\<close> if reading back overflows. Infinities and NaN round to
  themselves.
\<close>

definition py_round2 :: "pyfloat \<Rightarrow> pyerror + pyfloat" where
  "py_round2 x =
     (case x of
        Fin a \<Rightarrow> (case rnd64 (of_int (rhe (a * 100)) / 100) of
                     Fin r \<Rightarrow> Inr (Fin r)
                   | _ \<Rightarrow> Inl OverflowError)
      | _ \<Rightarrow> Inr x)"

subsection \<open>\<open>float(s)\<close> on a string\<close>

text \<open>
  \<open>float(s)\<close> in CPython 3.11, step by step. A string with a character outside
  ASCII is first rewritten: every Unicode whitespace character becomes a space, every
  Unicode decimal digit (the 66 runs of ten digits of Unicode 14, listed by their
  zeros) becomes the ASCII digit of its value, and at the first other character from
  U+007F on the text is cut and closed with a question mark. Then the C whitespace
  characters (tab to carriage return, and space; not U+001C to U+001F) are stripped
  from both ends. What is left must be an optional sign followed by \<open>inf\<close>,
  \<open>infinity\<close> or \<open>nan\<close> in any letter case, or by a decimal number with an optional
  fraction and an optional exponent, where single underscores may stand between
  digits. Anything else raises \<open>ValueError\<close>. The decimal value is rounded correctly
  to a double.
\<close>

definition ceros_decimales :: "nat list" where
  "ceros_decimales =
    [48, 1632, 1776, 1984, 2406, 2534, 2662, 2790, 2918, 3046, 3174, 3302, 3430, 3558,
     3664, 3792, 3872, 4160, 4240, 6112, 6160, 6470, 6608, 6784, 6800, 6992, 7088, 7232,
     7248, 42528, 43216, 43264, 43472, 43504, 43600, 44016, 65296, 66720, 68912, 69734,
     69872, 69942, 70096, 70384, 70736, 70864, 71248, 71360, 71472, 71904, 72016, 72784,
     73040, 73120, 92768, 92864, 93008, 120782, 120792, 120802, 120812, 120822, 123200,
     123632, 125264, 130032]"

definition valor_decimal :: "nat \<Rightarrow> nat option" where
  "valor_decimal c =
     map_option (\<lambda>z. c - z) (find (\<lambda>z. z \<le> c \<and> c < z + 10) ceros_decimales)"

fun a_ascii :: "str \<Rightarrow> str" where
  "a_ascii [] = []"
| "a_ascii (c # s) =
     (if c < 127 then c # a_ascii s
      else if py_isspace c then 32 # a_ascii s
      else (case valor_decimal c of
              Some d \<Rightarrow> (48 + d) # a_ascii s
            | None \<Rightarrow> [63]))"

definition c_isspace :: "nat \<Rightarrow> bool" where
  "c_isspace c = ((9 \<le> c \<and> c \<le> 13) \<or> c = 32)"

definition c_strip :: "str \<Rightarrow> str" where
  "c_strip s = rev (dropWhile c_isspace (rev (dropWhile c_isspace s)))"

definition es_digito :: "nat \<Rightarrow> bool" where
  "es_digito c = (48 \<le> c \<and> c \<le> 57)"

text \<open>
  A group of digits with underscores only between digits; the result is the number
  the digits denote after the digits already read (\<open>acc\<close>), or \<open>None\<close> when the
  group is empty or malformed.
\<close>

fun digitos :: "nat \<Rightarrow> str \<Rightarrow> nat option" where
  "digitos acc [] = None"
| "digitos acc (c # s) =
     (if es_digito c then
        (case s of
           [] \<Rightarrow> Some (10 * acc + (c - 48))
         | d # s' \<Rightarrow> if d = 95 then digitos (10 * acc + (c - 48)) s'
                     else digitos (10 * acc + (c - 48)) (d # s'))
      else None)"

text \<open>An optional group: the empty string counts as no digits.\<close>

definition digitos_opt :: "nat \<Rightarrow> str \<Rightarrow> nat option" where
  "digitos_opt acc s = (if s = [] then Some acc else digitos acc s)"

definition n_digitos :: "str \<Rightarrow> nat" where
  "n_digitos s = length (filter es_digito s)"

text \<open>The mantissa \<open>int[.frac]\<close>: its digits as one number and the count of fraction digits.\<close>

definition mantisa :: "str \<Rightarrow> (nat \<times> nat) option" where
  "mantisa m =
     (let ip = takeWhile (\<lambda>c. c \<noteq> 46) m; rest = dropWhile (\<lambda>c. c \<noteq> 46) m
      in if rest = [] then map_option (\<lambda>n. (n, 0)) (digitos 0 ip)
         else let fp = tl rest
              in if ip = [] \<and> fp = [] then None
                 else (case digitos_opt 0 ip of
                         None \<Rightarrow> None
                       | Some i \<Rightarrow> map_option (\<lambda>n. (n, n_digitos fp)) (digitos_opt i fp)))"

text \<open>The exponent after \<open>e\<close> or \<open>E\<close>: an optional sign and a group of digits.\<close>

definition exponente :: "str \<Rightarrow> int option" where
  "exponente s =
     (case s of
        [] \<Rightarrow> None
      | c # t \<Rightarrow> if c = 45 then map_option (\<lambda>n. - int n) (digitos 0 t)
                 else if c = 43 then map_option int (digitos 0 t)
                 else map_option int (digitos 0 s))"

definition pow10 :: "int \<Rightarrow> rat" where
  "pow10 e = (if 0 \<le> e then 10 ^ nat e else 1 / 10 ^ nat (- e))"

text \<open>An unsigned decimal literal and the rational it denotes.\<close>

definition decimal :: "str \<Rightarrow> rat option" where
  "decimal s =
     (let m = takeWhile (\<lambda>c. c \<noteq> 101 \<and> c \<noteq> 69) s;
          rest = dropWhile (\<lambda>c. c \<noteq> 101 \<and> c \<noteq> 69) s
      in case mantisa m of
           None \<Rightarrow> None
         | Some (n, k) \<Rightarrow>
             if rest = [] then Some (of_nat n * pow10 (- int k))
             else (case exponente (tl rest) of
                     None \<Rightarrow> None
                   | Some x \<Rightarrow> Some (of_nat n * pow10 (x - int k))))"

definition sin_signo :: "str \<Rightarrow> pyerror + pyfloat" where
  "sin_signo s =
     (let l = py_lower s
      in if l = lit ''inf'' \<or> l = lit ''infinity'' then Inr PInf
         else if l = lit ''nan'' then Inr NaN
         else (case decimal s of None \<Rightarrow> Inl ValueError | Some x \<Rightarrow> Inr (rnd64 x)))"

fun fneg :: "pyfloat \<Rightarrow> pyfloat" where
  "fneg (Fin a) = Fin (- a)"
| "fneg PInf = NInf"
| "fneg NInf = PInf"
| "fneg NaN = NaN"

definition py_float :: "str \<Rightarrow> pyerror + pyfloat" where
  "py_float s =
     (let t = (if list_all (\<lambda>c. c < 128) s then s else a_ascii s)
      in case c_strip t of
           [] \<Rightarrow> Inl ValueError
         | c # u \<Rightarrow> if c = 45 then map_sum id fneg (sin_signo u)
                    else if c = 43 then sin_signo u
                    else sin_signo (c # u))"

section \<open>calcular_imc\<close>

text \<open>
  A table cell holds text or, in the IMC column after a computation, a float.
  \<open>calcular_imc\<close> returns the empty text or the float.
\<close>

datatype celda = Texto str | Numero pyfloat

text \<open>\<open>s.replace(",", ".")\<close>\<close>

definition reemplaza_coma :: "str \<Rightarrow> str" where
  "reemplaza_coma s = map (\<lambda>c. if c = 44 then 46 else c) s"

text \<open>The body of the \<open>try\<close> block: an exception is an \<open>Inl\<close>.\<close>

definition calcular_imc_try :: "str \<Rightarrow> str \<Rightarrow> pyerror + celda" where
  "calcular_imc_try peso estatura =
     (case py_float (reemplaza_coma peso) of
        Inl err \<Rightarrow> Inl err
      | Inr p \<Rightarrow>
         (case py_float (reemplaza_coma estatura) of
            Inl err \<Rightarrow> Inl err
          | Inr e \<Rightarrow>
             if fle0 e then Inr (Texto [])
             else (case fdiv p (fmul e e) of
                     Inl err \<Rightarrow> Inl err
                   | Inr q \<Rightarrow> (case py_round2 q of
                                 Inl err \<Rightarrow> Inl err
                               | Inr r \<Rightarrow> Inr (Numero r)))))"

text \<open>\<open>except (ValueError, ZeroDivisionError): return ""\<close>; any other exception propagates.\<close>

definition calcular_imc :: "str \<Rightarrow> str \<Rightarrow> pyerror + celda" where
  "calcular_imc peso estatura =
     (case calcular_imc_try peso estatura of
        Inl ValueError \<Rightarrow> Inr (Texto [])
      | Inl ZeroDivisionError \<Rightarrow> Inr (Texto [])
      | Inl OverflowError \<Rightarrow> Inl OverflowError
      | Inr r \<Rightarrow> Inr r)"

section \<open>Facts about float rounding\<close>

lemma pow2_powi: "pow2 e = 2 powi e"
  by (simp add: pow2_def power_int_def power_inverse inverse_eq_divide field_simps)

lemma pow2_pos [simp]: "0 < pow2 e"
  by (simp add: pow2_powi)

lemma pow2_add: "pow2 (a + b) = pow2 a * pow2 b"
  by (simp add: pow2_powi power_int_add)

lemma pow2_mono: "a \<le> b \<Longrightarrow> pow2 a \<le> pow2 b"
  by (simp add: pow2_powi power_int_increasing)

lemma pow2_strict_mono: "a < b \<Longrightarrow> pow2 a < pow2 b"
  by (simp add: pow2_powi power_int_strict_increasing)

lemma pow2_nat: "pow2 (int n) = 2 ^ n"
  by (simp add: pow2_def)

lemma ilog2_bounds:
  assumes "0 < x"
  shows "pow2 (ilog2 x) \<le> x \<and> x < pow2 (ilog2 x + 1)"
proof -
  obtain p q where pq: "quotient_of x = (p, q)" by (cases "quotient_of x")
  have q: "0 < q" using pq quotient_of_denom_pos by blast
  have x: "x = of_int p / of_int q" using pq quotient_of_div by blast
  have p: "0 < p" using assms q x by (simp add: zero_less_divide_iff)
  define d where "d = bitlen p - bitlen q"
  have bp: "2 ^ nat (bitlen p - 1) \<le> p" "p < 2 ^ nat (bitlen p)"
    using bitlen_bounds[OF p] by auto
  have bq: "2 ^ nat (bitlen q - 1) \<le> q" "q < 2 ^ nat (bitlen q)"
    using bitlen_bounds[OF q] by auto
  have bp1: "1 \<le> bitlen p" using p by (simp add: bitlen_alt_def)
  have bq1: "1 \<le> bitlen q" using q by (simp add: bitlen_alt_def)
  have P1: "pow2 (bitlen p - 1) \<le> of_int p"
  proof -
    have "(of_int (2 ^ nat (bitlen p - 1)) :: rat) \<le> of_int p" using bp(1) of_int_le_iff by blast
    then show ?thesis using bp1 by (simp add: pow2_def)
  qed
  have P2: "of_int p < pow2 (bitlen p)"
  proof -
    have "(of_int p :: rat) < of_int (2 ^ nat (bitlen p))" using bp(2) of_int_less_iff by blast
    then show ?thesis using bp1 by (simp add: pow2_def)
  qed
  have Q1: "pow2 (bitlen q - 1) \<le> of_int q"
  proof -
    have "(of_int (2 ^ nat (bitlen q - 1)) :: rat) \<le> of_int q" using bq(1) of_int_le_iff by blast
    then show ?thesis using bq1 by (simp add: pow2_def)
  qed
  have Q2: "of_int q < pow2 (bitlen q)"
  proof -
    have "(of_int q :: rat) < of_int (2 ^ nat (bitlen q))" using bq(2) of_int_less_iff by blast
    then show ?thesis using bq1 by (simp add: pow2_def)
  qed
  have qr: "(0::rat) < of_int q" using q by simp
  have lo: "pow2 (d - 1) \<le> x"
  proof -
    have "pow2 (d - 1) * of_int q \<le> pow2 (d - 1) * pow2 (bitlen q)"
      using Q2 by (simp add: less_imp_le)
    also have "\<dots> = pow2 (bitlen p - 1)"
      by (simp add: d_def pow2_add[symmetric])
    also have "\<dots> \<le> of_int p" by (rule P1)
    finally show ?thesis using qr by (simp add: x pos_le_divide_eq)
  qed
  have hi: "x < pow2 (d + 1)"
  proof -
    have "of_int p < pow2 (bitlen p)" by (rule P2)
    also have "\<dots> = pow2 (d + 1) * pow2 (bitlen q - 1)"
      by (simp add: d_def pow2_add[symmetric])
    also have "\<dots> \<le> pow2 (d + 1) * of_int q"
      using Q1 by simp
    finally show ?thesis using qr by (simp add: x pos_divide_less_eq)
  qed
  have il: "ilog2 x = (if pow2 d \<le> x then d else d - 1)"
    by (simp add: ilog2_def pq d_def Let_def)
  show ?thesis
  proof (cases "pow2 d \<le> x")
    case True
    then show ?thesis using hi il by simp
  next
    case False
    then show ?thesis using lo il by simp
  qed
qed

lemma ilog2_eqI:
  assumes "pow2 e \<le> x" "x < pow2 (e + 1)"
  shows "ilog2 x = e"
proof -
  have x: "0 < x" using assms(1) pow2_pos[of e] by linarith
  note b = ilog2_bounds[OF x]
  have "\<not> ilog2 x < e"
  proof
    assume "ilog2 x < e"
    then have "pow2 (ilog2 x + 1) \<le> pow2 e" by (intro pow2_mono) simp
    then show False using b assms by linarith
  qed
  moreover have "\<not> e < ilog2 x"
  proof
    assume "e < ilog2 x"
    then have "pow2 (e + 1) \<le> pow2 (ilog2 x)" by (intro pow2_mono) simp
    then show False using b assms by linarith
  qed
  ultimately show ?thesis by simp
qed

lemma rhe_eqI:
  assumes "\<bar>x - of_int k\<bar> < 1 / 2"
  shows "rhe x = k"
proof -
  have f: "\<lfloor>x\<rfloor> = k \<or> \<lfloor>x\<rfloor> = k - 1"
    using assms by (auto simp: floor_eq_iff abs_less_iff)
  then show ?thesis
  proof
    assume a: "\<lfloor>x\<rfloor> = k"
    have "x - of_int k < 1 / 2" using assms by linarith
    then show ?thesis using a by (simp add: rhe_def Let_def)
  next
    assume a: "\<lfloor>x\<rfloor> = k - 1"
    have "1 / 2 < x - (of_int k - 1)" using assms by linarith
    then show ?thesis using a by (simp add: rhe_def Let_def)
  qed
qed

lemma rhe_of_int [simp]: "rhe (of_int k) = k"
  by (rule rhe_eqI) simp

lemma rnd64_normal:
  assumes "pow2 e \<le> \<bar>x\<bar>" "\<bar>x\<bar> < pow2 (e + 1)" "- 1022 \<le> e"
  shows "rnd64 x = (let r = of_int (rhe (x / pow2 (e - 52))) * pow2 (e - 52)
                    in if pow2 1024 \<le> \<bar>r\<bar> then (if 0 < x then PInf else NInf) else Fin r)"
proof -
  have "0 < \<bar>x\<bar>" using assms(1) pow2_pos[of e] by linarith
  then have "x \<noteq> 0" by simp
  moreover have "ilog2 \<bar>x\<bar> = e" using assms by (intro ilog2_eqI)
  ultimately show ?thesis using assms(3) by (simp add: rnd64_def Let_def max_def)
qed

lemma rnd64_normal_eq:
  assumes "pow2 e \<le> \<bar>x\<bar>" "\<bar>x\<bar> < pow2 (e + 1)" "- 1022 \<le> e"
    and "\<bar>x / pow2 (e - 52) - of_int k\<bar> < 1 / 2"
    and "\<bar>of_int k * pow2 (e - 52)\<bar> < pow2 1024"
  shows "rnd64 x = Fin (of_int k * pow2 (e - 52))"
  using assms(5) by (simp add: rnd64_normal[OF assms(1-3)] rhe_eqI[OF assms(4)] Let_def not_le)

lemma rnd64_underflow:
  assumes "\<bar>x\<bar> < pow2 (- 1075)"
  shows "rnd64 x = Fin 0"
proof (cases "x = 0")
  case True
  then show ?thesis by (simp add: rnd64_def)
next
  case False
  then have x: "0 < \<bar>x\<bar>" by simp
  have lt: "pow2 (- 1075) < pow2 (- 1022)" by (rule pow2_strict_mono) simp
  have "ilog2 \<bar>x\<bar> < - 1022"
  proof (rule ccontr)
    assume "\<not> ilog2 \<bar>x\<bar> < - 1022"
    then have "pow2 (- 1022) \<le> pow2 (ilog2 \<bar>x\<bar>)" by (intro pow2_mono) simp
    then show False using ilog2_bounds[OF x] assms lt by linarith
  qed
  then have e: "max (ilog2 \<bar>x\<bar>) (- 1022) = - 1022" by simp
  have "\<bar>x / pow2 (- 1074)\<bar> < pow2 (- 1075) / pow2 (- 1074)"
    using assms by (simp add: divide_strict_right_mono abs_of_pos)
  also have "pow2 (- 1075) / pow2 (- 1074) = pow2 (- 1075 - (- 1074))"
    by (simp add: pow2_powi power_int_diff)
  also have "\<dots> = 1 / 2" by (simp add: pow2_def)
  finally have "\<bar>x / pow2 (- 1074) - of_int 0\<bar> < 1 / 2" by simp
  then have "rhe (x / pow2 (- 1074)) = 0" by (rule rhe_eqI)
  then show ?thesis using False e by (simp add: rnd64_def Let_def not_le)
qed

lemma rhe_bounds: "\<bar>of_int (rhe x) - x\<bar> \<le> 1 / 2"
proof -
  have "of_int \<lfloor>x\<rfloor> \<le> x" "x < of_int \<lfloor>x\<rfloor> + 1" by linarith+
  then show ?thesis by (auto simp: rhe_def Let_def abs_le_iff)
qed

lemma rhe_abs_le:
  assumes "\<bar>x\<bar> \<le> of_int n"
  shows "\<bar>rhe x\<bar> \<le> n"
proof -
  have "\<bar>of_int (rhe x) :: rat\<bar> \<le> of_int n + 1 / 2" using rhe_bounds[of x] assms by linarith
  then have "(of_int \<bar>rhe x\<bar> :: rat) < of_int (n + 1)" by simp
  then have "\<bar>rhe x\<bar> < n + 1" using of_int_less_iff by blast
  then show ?thesis by simp
qed

lemma pow2_split: "pow2 (e + 1) = 2 ^ 53 * pow2 (e - 52)"
proof -
  have "e + 1 = 53 + (e - 52)" by simp
  then have "pow2 (e + 1) = pow2 (53 + (e - 52))" by (rule arg_cong)
  also have "\<dots> = pow2 53 * pow2 (e - 52)" by (rule pow2_add)
  finally show ?thesis by (simp add: pow2_def)
qed

lemma quantum_scaled:
  assumes "x \<noteq> 0"
  defines "e \<equiv> max (ilog2 \<bar>x\<bar>) (- 1022)"
  shows "\<bar>x / pow2 (e - 52)\<bar> < 2 ^ 53"
proof -
  have x: "0 < \<bar>x\<bar>" using assms(1) by simp
  have "\<bar>x\<bar> < pow2 (ilog2 \<bar>x\<bar> + 1)" using ilog2_bounds[OF x] by simp
  also have "\<dots> \<le> pow2 (e + 1)" by (rule pow2_mono) (simp add: e_def)
  also have "\<dots> = 2 ^ 53 * pow2 (e - 52)" by (rule pow2_split)
  finally show ?thesis by (simp add: abs_of_pos pos_divide_less_eq)
qed

lemma pow2_1024: "pow2 1024 = 2 ^ 53 * pow2 971"
  using pow2_split[of 1023] by simp

lemma rnd64_Fin_D:
  assumes "rnd64 x = Fin r"
  shows "\<bar>r\<bar> \<le> pow2 1024 - pow2 971 \<and> (2 ^ 53 \<le> \<bar>r\<bar> \<longrightarrow> (\<exists>n. r = of_int n))"
proof (cases "x = 0")
  case True
  then have "r = 0" using assms by (simp add: rnd64_def)
  moreover have "pow2 971 < pow2 1024" by (rule pow2_strict_mono) simp
  ultimately show ?thesis by simp
next
  case False
  define e where "e = max (ilog2 \<bar>x\<bar>) (- 1022)"
  define q where "q = pow2 (e - 52)"
  define k where "k = rhe (x / q)"
  have q0: "0 < q" by (simp add: q_def)
  have r: "r = of_int k * q" and rlt: "\<bar>of_int k * q\<bar> < pow2 1024"
    using assms False by (auto simp: rnd64_def Let_def e_def q_def k_def split: if_splits)
  have sc: "\<bar>x / q\<bar> < 2 ^ 53" using quantum_scaled[OF False] by (simp add: q_def e_def)
  have "\<bar>x / q\<bar> \<le> of_int (2 ^ 53)" using sc by simp
  then have k53: "\<bar>k\<bar> \<le> 2 ^ 53" unfolding k_def by (rule rhe_abs_le)
  have x: "0 < \<bar>x\<bar>" using False by simp
  have e1023: "e \<le> 1023"
  proof (rule ccontr)
    assume "\<not> e \<le> 1023"
    then have e: "1024 \<le> e" "e = ilog2 \<bar>x\<bar>" by (auto simp: e_def max_def split: if_splits)
    have "pow2 e \<le> \<bar>x\<bar>" using ilog2_bounds[OF x] e by simp
    moreover have "pow2 e = 2 ^ 52 * q"
    proof -
      have "e = 52 + (e - 52)" by simp
      then have "pow2 e = pow2 (52 + (e - 52))" by (rule arg_cong)
      also have "\<dots> = pow2 52 * pow2 (e - 52)" by (rule pow2_add)
      finally show ?thesis by (simp add: pow2_def q_def)
    qed
    ultimately have "2 ^ 52 * q \<le> \<bar>x\<bar>" by simp
    then have "2 ^ 52 \<le> \<bar>x\<bar> / q" using q0 by (simp add: pos_le_divide_eq)
    then have xq: "2 ^ 52 \<le> \<bar>x / q\<bar>" using q0 by (simp add: abs_of_pos)
    have "\<bar>of_int k - x / q\<bar> \<le> 1 / 2" unfolding k_def by (rule rhe_bounds)
    then have "(2 ^ 52 :: rat) - 1 / 2 \<le> \<bar>of_int k\<bar>" using xq by linarith
    then have "(of_int (2 ^ 52 - 1) :: rat) < of_int \<bar>k\<bar>" by simp
    then have "2 ^ 52 - 1 < \<bar>k\<bar>" using of_int_less_iff by blast
    then have "(2 ^ 52 :: rat) \<le> of_int \<bar>k\<bar>" by simp
    then have "2 ^ 52 * q \<le> \<bar>of_int k\<bar> * q" using q0 by simp
    then have "pow2 e \<le> \<bar>of_int k * q\<bar>" using \<open>pow2 e = 2 ^ 52 * q\<close> q0 by (simp add: abs_mult abs_of_pos)
    moreover have "pow2 1024 \<le> pow2 e" using e by (intro pow2_mono)
    ultimately show False using rlt by linarith
  qed
  have b: "\<bar>r\<bar> \<le> pow2 1024 - pow2 971"
  proof (cases "e = 1023")
    case True
    then have q971: "q = pow2 971" by (simp add: q_def)
    have "\<bar>of_int k\<bar> * q < 2 ^ 53 * q" using rlt q0 by (simp add: q971 pow2_1024 abs_mult abs_of_pos)
    then have "(of_int \<bar>k\<bar> :: rat) < of_int (2 ^ 53)" using q0 by simp
    then have "\<bar>k\<bar> < 2 ^ 53" using of_int_less_iff by blast
    then have "\<bar>k\<bar> \<le> 2 ^ 53 - 1" by simp
    then have "(of_int \<bar>k\<bar> :: rat) \<le> of_int (2 ^ 53 - 1)" using of_int_le_iff by blast
    then have "\<bar>of_int k\<bar> * q \<le> (2 ^ 53 - 1) * q" using q0 by simp
    then show ?thesis by (simp add: r abs_mult abs_of_pos q0 q971 pow2_1024 algebra_simps)
  next
    case False
    then have e': "e + 1 \<le> 1023" using e1023 by simp
    have "\<bar>of_int k\<bar> * q \<le> 2 ^ 53 * q" using k53 q0
      by (metis abs_of_nonneg mult_right_mono of_int_abs of_int_le_iff of_int_numeral of_int_power less_imp_le zero_le_numeral zero_le_power)
    also have "\<dots> = pow2 (e + 1)" by (simp add: pow2_split q_def)
    also have "\<dots> \<le> pow2 1023" using e' by (rule pow2_mono)
    also have "\<dots> \<le> pow2 1024 - pow2 971"
    proof -
      have "pow2 1024 = 2 * pow2 1023" using pow2_add[of 1 1023] by (simp add: pow2_def)
      moreover have "pow2 971 \<le> pow2 1023" by (rule pow2_mono) simp
      ultimately show ?thesis by linarith
    qed
    finally show ?thesis by (simp add: r abs_mult abs_of_pos q0)
  qed
  have i: "\<exists>n. r = of_int n" if "2 ^ 53 \<le> \<bar>r\<bar>"
  proof -
    have "\<bar>of_int k\<bar> * q \<le> 2 ^ 53 * q" using k53 q0
      by (metis abs_of_nonneg mult_right_mono of_int_abs of_int_le_iff of_int_numeral of_int_power less_imp_le zero_le_numeral zero_le_power)
    moreover have "2 ^ 53 \<le> \<bar>of_int k\<bar> * q" using that by (simp add: r abs_mult abs_of_pos q0)
    ultimately have "(2 ^ 53 :: rat) * 1 \<le> 2 ^ 53 * q" by linarith
    then have "1 \<le> q" by (simp only: mult_le_cancel_left_pos zero_less_numeral zero_less_power)
    have "52 \<le> e"
    proof (rule ccontr)
      assume "\<not> 52 \<le> e"
      then have "pow2 (e - 52) < pow2 0" by (intro pow2_strict_mono) simp
      then show False using \<open>1 \<le> q\<close> by (simp add: q_def pow2_def)
    qed
    then have "q = of_int (2 ^ nat (e - 52))" by (simp add: q_def pow2_def)
    then have "r = of_int (k * 2 ^ nat (e - 52))" by (simp add: r)
    then show ?thesis by blast
  qed
  show ?thesis using b i by blast
qed

lemma abs_k_q_le:
  assumes "\<bar>k\<bar> \<le> n" "0 < q"
  shows "\<bar>(of_int k :: rat) * q\<bar> \<le> of_int n * q"
proof -
  have "(of_int \<bar>k\<bar> :: rat) \<le> of_int n" using assms(1) of_int_le_iff by blast
  then have "\<bar>of_int k :: rat\<bar> * q \<le> of_int n * q" using assms(2) by simp
  then show ?thesis using assms(2) by (simp add: abs_mult abs_of_pos)
qed

lemma rnd64_no_overflow:
  assumes "\<bar>y\<bar> \<le> pow2 1024 - pow2 971"
  shows "\<exists>r. rnd64 y = Fin r"
proof (cases "y = 0")
  case True
  then show ?thesis by (simp add: rnd64_def)
next
  case False
  define e where "e = max (ilog2 \<bar>y\<bar>) (- 1022)"
  define q where "q = pow2 (e - 52)"
  define k where "k = rhe (y / q)"
  have q0: "0 < q" by (simp add: q_def)
  have y: "0 < \<bar>y\<bar>" using False by simp
  have p971: "0 < pow2 971" by simp
  have "ilog2 \<bar>y\<bar> \<le> 1023"
  proof (rule ccontr)
    assume "\<not> ilog2 \<bar>y\<bar> \<le> 1023"
    then have "pow2 1024 \<le> pow2 (ilog2 \<bar>y\<bar>)" by (intro pow2_mono) simp
    then show False using ilog2_bounds[OF y] assms p971 by linarith
  qed
  then have e1023: "e \<le> 1023" by (simp add: e_def)
  have lt: "\<bar>of_int k * q\<bar> < pow2 1024"
  proof (cases "e = 1023")
    case True
    then have q971: "q = pow2 971" by (simp add: q_def)
    have "\<bar>y\<bar> \<le> (2 ^ 53 - 1) * q" using assms by (simp add: q971 pow2_1024 algebra_simps)
    then have "\<bar>y\<bar> / q \<le> 2 ^ 53 - 1" using q0 by (simp add: pos_divide_le_eq)
    then have "\<bar>y / q\<bar> \<le> of_int (2 ^ 53 - 1)" using q0 by (simp add: abs_of_pos)
    then have "\<bar>k\<bar> \<le> 2 ^ 53 - 1" unfolding k_def by (rule rhe_abs_le)
    then have "\<bar>of_int k * q\<bar> \<le> of_int (2 ^ 53 - 1) * q" using q0 by (rule abs_k_q_le)
    also have "\<dots> = pow2 1024 - pow2 971" by (simp add: q971 pow2_1024 algebra_simps)
    finally show ?thesis using p971 by linarith
  next
    case False
    then have e': "e + 1 \<le> 1023" using e1023 by simp
    have "\<bar>y / q\<bar> < 2 ^ 53" using quantum_scaled[OF \<open>y \<noteq> 0\<close>] by (simp add: q_def e_def)
    then have "\<bar>y / q\<bar> \<le> of_int (2 ^ 53)" by simp
    then have "\<bar>k\<bar> \<le> 2 ^ 53" unfolding k_def by (rule rhe_abs_le)
    then have "\<bar>of_int k * q\<bar> \<le> of_int (2 ^ 53) * q" using q0 by (rule abs_k_q_le)
    also have "\<dots> = pow2 (e + 1)" by (simp add: pow2_split q_def)
    also have "\<dots> \<le> pow2 1023" using e' by (rule pow2_mono)
    also have "\<dots> < pow2 1024" by (rule pow2_strict_mono) simp
    finally show ?thesis .
  qed
  have "rnd64 y = Fin (of_int k * q)"
    using False lt by (simp add: rnd64_def Let_def e_def q_def k_def not_le)
  then show ?thesis by blast
qed

lemma maxd_ge: "2 ^ 53 + 1 \<le> pow2 1024 - pow2 971"
proof -
  have "pow2 1024 - pow2 971 = (2 ^ 53 - 1) * pow2 971" by (simp add: pow2_1024 algebra_simps)
  moreover have "pow2 1 \<le> pow2 971" by (rule pow2_mono) simp
  then have "2 \<le> pow2 971" by (simp add: pow2_def)
  then have "(2 ^ 53 - 1) * (2::rat) \<le> (2 ^ 53 - 1) * pow2 971" by (intro mult_left_mono) simp_all
  ultimately show ?thesis by simp
qed

lemma py_round2_Fin:
  assumes "\<bar>a\<bar> \<le> pow2 1024 - pow2 971" "2 ^ 53 \<le> \<bar>a\<bar> \<longrightarrow> (\<exists>n. a = of_int n)"
  shows "\<exists>r. py_round2 (Fin a) = Inr (Fin r)"
proof -
  define y :: rat where "y = of_int (rhe (a * 100)) / 100"
  have "\<bar>y\<bar> \<le> pow2 1024 - pow2 971"
  proof (cases "2 ^ 53 \<le> \<bar>a\<bar>")
    case True
    then obtain n where n: "a = of_int n" using assms(2) by blast
    have "a * 100 = of_int (n * 100)" by (simp add: n)
    then have "rhe (a * 100) = n * 100" by (simp only: rhe_of_int)
    then have "y = a" by (simp add: y_def n)
    then show ?thesis using assms(1) by simp
  next
    case False
    have "\<bar>of_int (rhe (a * 100)) - a * 100\<bar> \<le> 1 / 2" by (rule rhe_bounds)
    then have "\<bar>y - a\<bar> \<le> 1 / 200" by (simp add: y_def abs_le_iff field_simps)
    then have "\<bar>y\<bar> \<le> 2 ^ 53 + 1" using False by linarith
    then show ?thesis using maxd_ge by linarith
  qed
  then obtain r where "rnd64 y = Fin r" using rnd64_no_overflow by blast
  then show ?thesis by (simp add: py_round2_def y_def)
qed

lemma py_round2_rnd64:
  assumes "rnd64 x = Fin a"
  shows "\<exists>r. py_round2 (Fin a) = Inr (Fin r)"
  using rnd64_Fin_D[OF assms] by (intro py_round2_Fin) simp_all

lemma py_round2_zero: "\<exists>r. py_round2 (Fin 0) = Inr (Fin r)"
  using py_round2_rnd64[of 0 0] by (simp add: rnd64_def)

lemma py_round2_fdiv:
  assumes "fdiv p z = Inr q"
  shows "\<exists>r. py_round2 q = Inr r"
proof (cases q)
  case (Fin a)
  have "(\<exists>x. rnd64 x = Fin a) \<or> a = 0"
    using assms Fin by (cases p; cases z) (auto split: if_splits)
  then show ?thesis using Fin py_round2_rnd64 py_round2_zero by blast
qed (simp_all add: py_round2_def)

lemma fdiv_zero_iff: "fdiv p z = Inl err \<longleftrightarrow> z = Fin 0 \<and> err = ZeroDivisionError"
  by (cases p; cases z) auto

lemma sin_signo_error: "sin_signo s = Inl err \<Longrightarrow> err = ValueError"
  by (auto simp: sin_signo_def Let_def split: if_splits option.splits)

lemma py_float_error:
  assumes "py_float s = Inl err"
  shows "err = ValueError"
proof -
  define t where "t = (if list_all (\<lambda>c. c < 128) s then s else a_ascii s)"
  show ?thesis
  proof (cases "c_strip t")
    case Nil
    then show ?thesis using assms by (simp add: py_float_def t_def)
  next
    case (Cons c u)
    show ?thesis
    proof (cases "c = 45")
      case True
      then have "map_sum id fneg (sin_signo u) = Inl err"
        using assms Cons by (simp add: py_float_def t_def)
      then have "sin_signo u = Inl err" by (cases "sin_signo u") simp_all
      then show ?thesis by (rule sin_signo_error)
    next
      case False
      then have "sin_signo u = Inl err \<or> sin_signo (c # u) = Inl err"
        using assms Cons by (simp add: py_float_def t_def split: if_splits)
      then show ?thesis using sin_signo_error by blast
    qed
  qed
qed

lemma rnd64_not_NaN: "rnd64 x \<noteq> NaN"
  by (simp add: rnd64_def Let_def)

text \<open>The quotient of a finite weight by the square of a finite height is never a NaN.\<close>

lemma imc_not_NaN:
  assumes "fdiv (Fin a) (fmul (Fin b) (Fin b)) = Inr q" "py_round2 q = Inr r"
  shows "r \<noteq> NaN"
proof -
  have q: "q \<noteq> NaN"
  proof (cases "rnd64 (b * b)")
    case (Fin z)
    then show ?thesis using assms(1) rnd64_not_NaN[of "a / z"] by (auto split: if_splits)
  next
    case PInf
    then show ?thesis using assms(1) by auto
  next
    case NInf
    then show ?thesis using assms(1) by auto
  next
    case NaN
    then show ?thesis using rnd64_not_NaN[of "b * b"] by simp
  qed
  show ?thesis
  proof (cases q)
    case (Fin z)
    then show ?thesis using assms(2) by (auto simp: py_round2_def split: pyfloat.splits)
  qed (use q assms(2) in \<open>auto simp: py_round2_def\<close>)
qed

section \<open>calcular_imc on concrete inputs\<close>

lemmas float_defs = py_float_def c_strip_def c_isspace_def lit_def sin_signo_def py_lower_def
  lower_cp_def decimal_def mantisa_def exponente_def es_digito_def pow10_def digitos_opt_def
  n_digitos_def reemplaza_coma_def

lemma float_70: "py_float (reemplaza_coma (lit ''70'')) = Inr (Fin 70)"
  apply (simp add: float_defs)
  apply (subst rnd64_normal_eq[where e = 6 and k = "70 * 2 ^ 46"])
  apply (simp_all add: pow2_def)
  done

lemma float_175: "py_float (reemplaza_coma (lit ''1.75'')) = Inr (Fin (7 / 4))"
  apply (simp add: float_defs)
  apply (subst rnd64_normal_eq[where e = 0 and k = "7 * 2 ^ 50"])
  apply (simp_all add: pow2_def)
  done

lemma float_2286: "py_float (lit ''22.86'') = Inr (Fin (1608629491901399 / 70368744177664))"
  apply (simp add: float_defs)
  apply (subst rnd64_normal_eq[where e = 4 and k = 6434517967605596])
  apply (simp_all add: pow2_def)
  done

lemma float_2449: "py_float (lit ''24.49'') = Inr (Fin (6893322179643965 / 281474976710656))"
  apply (simp add: float_defs)
  apply (subst rnd64_normal_eq[where e = 4 and k = 6893322179643965])
  apply (simp_all add: pow2_def)
  done

lemma float_1e_200: "py_float (reemplaza_coma (lit ''1e-200'')) = Inr (Fin (1723641332219371 / 2 ^ 715))"
  apply (simp add: float_defs)
  apply (subst rnd64_normal_eq[where e = "- 665" and k = 6894565328877484])
  apply (simp_all add: pow2_def)
  done

lemma sq_underflow: "fmul (Fin (1723641332219371 / 2 ^ 715)) (Fin (1723641332219371 / 2 ^ 715)) = Fin 0"
  apply simp
  apply (rule rnd64_underflow)
  apply (simp add: pow2_def)
  done

lemma imc_70_175:
  "calcular_imc (lit ''70'') (lit ''1.75'') = Inr (Numero (Fin (1608629491901399 / 70368744177664)))"
proof -
  have sq: "fmul (Fin (7 / 4)) (Fin (7 / 4)) = Fin (49 / 16)"
    apply simp
    apply (subst rnd64_normal_eq[where e = 1 and k = "49 * 2 ^ 47"])
    apply (simp_all add: pow2_def)
    done
  have dv: "fdiv (Fin 70) (Fin (49 / 16)) = Inr (Fin (6433713753386423 / 281474976710656))"
    apply simp
    apply (subst rnd64_normal_eq[where e = 4 and k = 6433713753386423])
    apply (simp_all add: pow2_def)
    done
  have rh: "rhe (6433713753386423 / 281474976710656 * 100) = 2286"
    by (rule rhe_eqI) simp
  have rd: "py_round2 (Fin (6433713753386423 / 281474976710656)) = Inr (Fin (1608629491901399 / 70368744177664))"
    apply (simp only: py_round2_def pyfloat.case rh)
    apply (subst rnd64_normal_eq[where e = 4 and k = 6434517967605596])
    apply (simp_all add: pow2_def)
    done
  show ?thesis
    by (simp add: calcular_imc_def calcular_imc_try_def float_70 float_175 sq dv rd
        del: fmul.simps fdiv.simps)
qed

lemma imc_70_1e_200: "calcular_imc (lit ''70'') (lit ''1e-200'') = Inr (Texto [])"
  unfolding calcular_imc_def calcular_imc_try_def float_70 float_1e_200 sum.case sq_underflow
  by simp

section \<open>Body-mass index\<close>

lemma sq_175: "fmul (Fin (7 / 4)) (Fin (7 / 4)) = Fin (49 / 16)"
  apply simp
  apply (subst rnd64_normal_eq[where e = 1 and k = "49 * 2 ^ 47"])
  apply (simp_all add: pow2_def)
  done

text \<open>
  C2, as the code has it. For all input strings, \<open>calcular_imc\<close> never raises, and
  it returns the empty text when one of the inputs fails to parse (after the comma is
  replaced by a dot) or the height parses to a finite value \<open>\<le> 0\<close>. When both
  inputs parse to finite numbers, it returns the empty text exactly when the height is
  \<open>\<le> 0\<close> or the square of the height underflows to the float zero (the division
  then raises \<open>ZeroDivisionError\<close>, which the handler turns into the empty text); in
  every other case it returns weight / height squared in float arithmetic, rounded to
  two decimals by \<open>round\<close>, which is never a NaN. Inputs that \<open>float()\<close> reads as an
  infinity or a NaN are outside this statement.
\<close>

theorem calcular_imc_result:
  "(\<exists>c. calcular_imc peso estatura = Inr c) \<and>
   ((\<exists>err. py_float (reemplaza_coma peso) = Inl err) \<or>
    (\<exists>err. py_float (reemplaza_coma estatura) = Inl err) \<longrightarrow>
      calcular_imc peso estatura = Inr (Texto [])) \<and>
   (\<forall>p b. py_float (reemplaza_coma peso) = Inr p \<and>
          py_float (reemplaza_coma estatura) = Inr (Fin b) \<and> b \<le> 0 \<longrightarrow>
          calcular_imc peso estatura = Inr (Texto [])) \<and>
   (\<forall>a b. py_float (reemplaza_coma peso) = Inr (Fin a) \<and>
          py_float (reemplaza_coma estatura) = Inr (Fin b) \<longrightarrow>
          (calcular_imc peso estatura = Inr (Texto []) \<longleftrightarrow>
             b \<le> 0 \<or> fmul (Fin b) (Fin b) = Fin 0) \<and>
          (\<not> (b \<le> 0 \<or> fmul (Fin b) (Fin b) = Fin 0) \<longrightarrow>
             (\<exists>q r. fdiv (Fin a) (fmul (Fin b) (Fin b)) = Inr q \<and> py_round2 q = Inr r \<and>
                    r \<noteq> NaN \<and> calcular_imc peso estatura = Inr (Numero r))))"
proof (cases "py_float (reemplaza_coma peso)")
  case (Inl err)
  then have "err = ValueError" by (rule py_float_error)
  then show ?thesis using Inl by (simp add: calcular_imc_def calcular_imc_try_def)
next
  case p: (Inr p)
  show ?thesis
  proof (cases "py_float (reemplaza_coma estatura)")
    case (Inl err)
    then have "err = ValueError" by (rule py_float_error)
    then show ?thesis using Inl p by (simp add: calcular_imc_def calcular_imc_try_def)
  next
    case e: (Inr e)
    have tot: "\<exists>c. calcular_imc peso estatura = Inr c"
    proof (cases "fdiv p (fmul e e)")
      case (Inl err)
      then have "err = ZeroDivisionError" by (simp add: fdiv_zero_iff)
      then show ?thesis using Inl p e
        by (simp add: calcular_imc_def calcular_imc_try_def del: fmul.simps fdiv.simps)
    next
      case (Inr q)
      then obtain r where "py_round2 q = Inr r" using py_round2_fdiv by blast
      then show ?thesis using Inr p e
        by (simp add: calcular_imc_def calcular_imc_try_def del: fmul.simps fdiv.simps)
    qed
    have le0: "calcular_imc peso estatura = Inr (Texto [])" if "e = Fin b" "b \<le> 0" for b
      using that p e by (simp add: calcular_imc_def calcular_imc_try_def)
    have fin: "(calcular_imc peso estatura = Inr (Texto []) \<longleftrightarrow>
             b \<le> 0 \<or> fmul (Fin b) (Fin b) = Fin 0) \<and>
          (\<not> (b \<le> 0 \<or> fmul (Fin b) (Fin b) = Fin 0) \<longrightarrow>
             (\<exists>q r. fdiv (Fin a) (fmul (Fin b) (Fin b)) = Inr q \<and> py_round2 q = Inr r \<and>
                    r \<noteq> NaN \<and> calcular_imc peso estatura = Inr (Numero r)))"
      if pa: "p = Fin a" and eb: "e = Fin b" for a b
    proof (cases "b \<le> 0 \<or> fmul (Fin b) (Fin b) = Fin 0")
      case True
      have "fdiv (Fin a) (Fin 0) = Inl ZeroDivisionError" by simp
      then have "calcular_imc peso estatura = Inr (Texto [])" using True p e pa eb
        by (auto simp: calcular_imc_def calcular_imc_try_def simp del: fmul.simps fdiv.simps)
      then show ?thesis using True by simp
    next
      case False
      then obtain q where q: "fdiv (Fin a) (fmul (Fin b) (Fin b)) = Inr q"
        using fdiv_zero_iff[of "Fin a" "fmul (Fin b) (Fin b)"]
        by (cases "fdiv (Fin a) (fmul (Fin b) (Fin b))") auto
      then obtain r where r: "py_round2 q = Inr r" using py_round2_fdiv by blast
      have nn: "r \<noteq> NaN" using q r by (rule imc_not_NaN)
      have res: "calcular_imc peso estatura = Inr (Numero r)"
        using False p e pa eb q r
        by (simp add: calcular_imc_def calcular_imc_try_def del: fmul.simps fdiv.simps)
      then have "calcular_imc peso estatura \<noteq> Inr (Texto [])" by simp
      then show ?thesis using False q r nn res by blast
    qed
    show ?thesis using tot le0 fin p e by simp
  qed
qed

theorem calcular_imc_result_witness:
  "py_float (reemplaza_coma (lit ''70'')) = Inr (Fin 70) \<and>
   py_float (reemplaza_coma (lit ''1.75'')) = Inr (Fin (7 / 4)) \<and>
   \<not> (7 / 4 \<le> (0::rat)) \<and> fmul (Fin (7 / 4)) (Fin (7 / 4)) = Fin (49 / 16) \<and>
   (\<exists>q r. fdiv (Fin 70) (Fin (49 / 16)) = Inr q \<and> py_round2 q = Inr r \<and> r \<noteq> NaN \<and>
          calcular_imc (lit ''70'') (lit ''1.75'') = Inr (Numero r))"
proof -
  have ne: "\<not> ((7 / 4 :: rat) \<le> 0 \<or> fmul (Fin (7 / 4)) (Fin (7 / 4)) = Fin 0)"
    unfolding sq_175 by simp
  have "\<forall>a b. py_float (reemplaza_coma (lit ''70'')) = Inr (Fin a) \<and>
          py_float (reemplaza_coma (lit ''1.75'')) = Inr (Fin b) \<longrightarrow>
          (\<not> (b \<le> 0 \<or> fmul (Fin b) (Fin b) = Fin 0) \<longrightarrow>
             (\<exists>q r. fdiv (Fin a) (fmul (Fin b) (Fin b)) = Inr q \<and> py_round2 q = Inr r \<and>
                    r \<noteq> NaN \<and> calcular_imc (lit ''70'') (lit ''1.75'') = Inr (Numero r)))"
    using calcular_imc_result[of "lit ''70''" "lit ''1.75''"] by simp
  then have "\<exists>q r. fdiv (Fin 70) (fmul (Fin (7 / 4)) (Fin (7 / 4))) = Inr q \<and> py_round2 q = Inr r \<and>
          r \<noteq> NaN \<and> calcular_imc (lit ''70'') (lit ''1.75'') = Inr (Numero r)"
    using float_70 float_175 ne by blast
  then show ?thesis unfolding sq_175 using float_70 float_175 by simp
qed

text \<open>
  The claim as stated in the specification fails for the height \<open>"1e-200"\<close>: both
  inputs parse, the height is positive, and the result is still the empty text.
\<close>

theorem calcular_imc_underflow_counterexample:
  "calcular_imc (lit ''70'') (lit ''1e-200'') = Inr (Texto []) \<and>
   py_float (reemplaza_coma (lit ''70'')) = Inr (Fin 70) \<and>
   py_float (reemplaza_coma (lit ''1e-200'')) = Inr (Fin (1723641332219371 / 2 ^ 715)) \<and>
   \<not> fle0 (Fin (1723641332219371 / 2 ^ 715))"
  using imc_70_1e_200 float_70 float_1e_200 by simp

text \<open>
  An input that \<open>float()\<close> reads as a NaN is outside the statement of C2: here the
  code returns the NaN itself, not the empty text.
\<close>

lemma calcular_imc_nan: "calcular_imc (lit ''nan'') (lit ''1.75'') = Inr (Numero NaN)"
proof -
  have a: "py_float (reemplaza_coma (lit ''nan'')) = Inr NaN" by (simp add: float_defs)
  show ?thesis
    unfolding calcular_imc_def calcular_imc_try_def a float_175 sum.case sq_175
    by (simp add: py_round2_def)
qed

text \<open>
  C10, as the code has it: \<open>calcular_imc("70", "1.75")\<close> returns the float \<open>22.86\<close>
  (70 / (1.75 * 1.75) = 22.857...).
\<close>

theorem calcular_imc_70_175:
  "calcular_imc (lit ''70'') (lit ''1.75'') = Inr (Numero (Fin (1608629491901399 / 70368744177664))) \<and>
   py_float (lit ''22.86'') = Inr (Fin (1608629491901399 / 70368744177664))"
  using imc_70_175 float_2286 by simp

text \<open>The result is not the float \<open>24.49\<close> that the specification gives.\<close>

theorem calcular_imc_70_175_counterexample:
  "py_float (lit ''24.49'') = Inr (Fin (6893322179643965 / 281474976710656)) \<and>
   calcular_imc (lit ''70'') (lit ''1.75'') \<noteq> Inr (Numero (Fin (6893322179643965 / 281474976710656)))"
  using imc_70_175 float_2449 by simp

section \<open>Roster lookup and edit rules\<close>

text \<open>
  The roster (\<open>padron_df\<close>) is a pandas table with the columns DNI, Nombre and
  Beneficio. A cell holds whatever the loader read: a string, or another object such
  as an integer, or the float NaN that pandas puts in a blank cell. The code uses two
  things of a cell: its text \<open>str(x)\<close> and its truth value (in \<open>x or ""\<close>). A cell
  is therefore a string, or an object given by its text and its truth value. An empty
  data frame is the empty list of rows.
\<close>

datatype valor = VStr str | VObj str bool

definition py_str :: "valor \<Rightarrow> str" where
  "py_str x = (case x of VStr s \<Rightarrow> s | VObj t b \<Rightarrow> t)"

definition py_bool :: "valor \<Rightarrow> bool" where
  "py_bool x = (case x of VStr s \<Rightarrow> s \<noteq> [] | VObj t b \<Rightarrow> b)"

text \<open>\<open>str(x or "")\<close>\<close>

definition str_o_vacio :: "valor \<Rightarrow> str" where
  "str_o_vacio x = (if py_bool x then py_str x else [])"

text \<open>
  The float NaN prints as \<open>nan\<close> and is true; the integer 0 prints as \<open>0\<close> and is
  false.
\<close>

definition py_nan :: valor where
  "py_nan = VObj (lit ''nan'') True"

definition py_cero :: valor where
  "py_cero = VObj (lit ''0'') False"

record entrada =
  p_dni :: valor
  p_nombre :: valor
  p_beneficio :: valor

text \<open>
  \<open>astype(str).str.strip()\<close> turns every DNI cell into its trimmed text; the rows
  whose DNI then equals the query are kept in order, and the first one answers.
\<close>

definition buscar_en_padron :: "entrada list \<Rightarrow> str \<Rightarrow> str \<times> str" where
  "buscar_en_padron padron dni =
     (if padron = [] then ([], [])
      else let df = map (\<lambda>r. r\<lparr>p_dni := VStr (py_strip (py_str (p_dni r)))\<rparr>) padron;
               resultado = filter (\<lambda>r. p_dni r = VStr dni) df
           in case resultado of
                [] \<Rightarrow> ([], [])
              | fila # _ \<Rightarrow> (str_o_vacio (p_nombre fila), str_o_vacio (p_beneficio fila)))"

text \<open>
  One row of the table (\<open>self.tree\<close>): the ten columns and the row's colour tag.
  Every cell is text, except that the IMC cell holds the float after a computation.
\<close>

record fila =
  dni :: str
  nombre :: str
  beneficio :: str
  presion :: str
  peso :: str
  estatura :: str
  imc :: celda
  diagnostico :: str
  tratamiento :: str
  fecha :: str
  tag :: str

datatype columna = DNI | Nombre | Beneficio | PresionArterial | Peso | Estatura | IMC
  | Diagnostico | Tratamiento | FechaAtencion

definition actualizar_color_fila :: "fila \<Rightarrow> fila" where
  "actualizar_color_fila f =
     (let categoria = clasificar_paciente (diagnostico f) (tratamiento f)
      in f\<lparr>tag := lit ''tag_'' @ categoria\<rparr>)"

text \<open>
  \<open>post_edicion\<close>: \<open>f0\<close> is the row as the table holds it when the function is
  entered; the local \<open>fila\<close> of the source is a snapshot of it. The four rules run
  in the order of the source, each on the row the previous one left. An exception of
  \<open>calcular_imc\<close> would leave the function.
\<close>

definition post_edicion :: "entrada list \<Rightarrow> columna \<Rightarrow> fila \<Rightarrow> pyerror + fila" where
  "post_edicion padron col f0 =
     (let f1 = (if col = DNI then
                  (let d = py_strip (dni f0)
                   in if d \<noteq> [] then
                        (case buscar_en_padron padron d of
                           (n, b) \<Rightarrow> f0\<lparr>nombre := n, beneficio := b\<rparr>)
                      else f0)
                else f0);
          f2 = (if col = PresionArterial then
                  (let pa = py_strip (presion f0)
                   in if pa \<noteq> [] \<and> \<not> contiene (lit ''mmhg'') (normaliza (PyStr pa))
                      then f1\<lparr>presion := pa @ lit '' mmHg''\<rparr>
                      else f1)
                else f1)
      in case (if col = Peso \<or> col = Estatura then
                 (case calcular_imc (peso f2) (estatura f2) of
                    Inl err \<Rightarrow> Inl err
                  | Inr c \<Rightarrow> Inr (f2\<lparr>imc := c\<rparr>))
               else Inr f2) of
           Inl err \<Rightarrow> Inl err
         | Inr f3 \<Rightarrow>
             Inr (if col = Diagnostico \<or> col = Tratamiento then actualizar_color_fila f3
                  else f3))"

text \<open>
  The status bar after an edit of the DNI column: the message (a check mark, U+2705,
  and the text) when the lookup found a name, nothing otherwise.
\<close>

definition post_edicion_estado :: "entrada list \<Rightarrow> columna \<Rightarrow> fila \<Rightarrow> str option" where
  "post_edicion_estado padron col f0 =
     (if col = DNI \<and> py_strip (dni f0) \<noteq> [] \<and>
         fst (buscar_en_padron padron (py_strip (dni f0))) \<noteq> []
      then Some ([9989, 32] @ lit ''Datos autocompletados para DNI: '' @ py_strip (dni f0))
      else None)"

text \<open>
  A fresh row as \<open>_poblar_filas_vacias\<close> creates it: every cell empty, tag
  \<open>tag_ninguno\<close>.
\<close>

definition fila_vacia :: fila where
  "fila_vacia = \<lparr>dni = [], nombre = [], beneficio = [], presion = [], peso = [], estatura = [],
     imc = Texto [], diagnostico = [], tratamiento = [], fecha = [], tag = lit ''tag_ninguno''\<rparr>"

section \<open>Roster lookup\<close>

lemma buscar_sin_coincidencia:
  assumes "\<forall>r\<in>set padron. py_strip (py_str (p_dni r)) \<noteq> d"
  shows "buscar_en_padron padron d = ([], [])"
proof -
  have "filter (\<lambda>r. p_dni r = VStr d)
          (map (\<lambda>r. r\<lparr>p_dni := VStr (py_strip (py_str (p_dni r)))\<rparr>) padron) = []"
    using assms by (simp add: filter_empty_conv)
  then show ?thesis by (simp add: buscar_en_padron_def)
qed

lemma buscar_primera:
  assumes "padron = pre @ r # post" "\<forall>x\<in>set pre. py_strip (py_str (p_dni x)) \<noteq> d"
    "py_strip (py_str (p_dni r)) = d"
  shows "buscar_en_padron padron d = (str_o_vacio (p_nombre r), str_o_vacio (p_beneficio r))"
proof -
  have "filter (\<lambda>r. p_dni r = VStr d)
          (map (\<lambda>r. r\<lparr>p_dni := VStr (py_strip (py_str (p_dni r)))\<rparr>) pre) = []"
    using assms(2) by (simp add: filter_empty_conv)
  then show ?thesis using assms(1,3) by (simp add: buscar_en_padron_def)
qed

text \<open>On a cell that is a string, \<open>str(x or "")\<close> is the string itself.\<close>

lemma str_o_vacio_VStr: "str_o_vacio (VStr s) = s"
  by (simp add: str_o_vacio_def py_bool_def py_str_def)

lemma strip_123: "py_strip (lit ''123'') = lit ''123''"
  by (simp add: py_strip_def py_isspace_def lit_def)

text \<open>
  C7 at a roster whose matching entry has a blank name cell: pandas reads the blank
  cell as NaN, NaN is true, so \<open>x or ""\<close> keeps it and the lookup returns the text
  \<open>nan\<close> as the name of an entry that has none. In the same way a benefit cell that
  holds the integer 0 is false, and the lookup returns the empty string for it.
\<close>

theorem buscar_en_padron_blank_cell:
  "buscar_en_padron
     [\<lparr>p_dni = VStr (lit ''123''), p_nombre = py_nan, p_beneficio = VStr (lit ''A'')\<rparr>]
     (lit ''123'') = (lit ''nan'', lit ''A'') \<and>
   buscar_en_padron
     [\<lparr>p_dni = VStr (lit ''123''), p_nombre = VStr (lit ''Ana''), p_beneficio = py_cero\<rparr>]
     (lit ''123'') = (lit ''Ana'', [])"
proof -
  have 1: "buscar_en_padron
     [\<lparr>p_dni = VStr (lit ''123''), p_nombre = py_nan, p_beneficio = VStr (lit ''A'')\<rparr>]
     (lit ''123'') = (str_o_vacio py_nan, str_o_vacio (VStr (lit ''A'')))"
    using buscar_primera[of _ "[]" "\<lparr>p_dni = VStr (lit ''123''), p_nombre = py_nan,
      p_beneficio = VStr (lit ''A'')\<rparr>" "[]" "lit ''123''"]
    by (simp add: py_str_def strip_123)
  have 2: "buscar_en_padron
     [\<lparr>p_dni = VStr (lit ''123''), p_nombre = VStr (lit ''Ana''), p_beneficio = py_cero\<rparr>]
     (lit ''123'') = (str_o_vacio (VStr (lit ''Ana'')), str_o_vacio py_cero)"
    using buscar_primera[of _ "[]" "\<lparr>p_dni = VStr (lit ''123''), p_nombre = VStr (lit ''Ana''),
      p_beneficio = py_cero\<rparr>" "[]" "lit ''123''"]
    by (simp add: py_str_def strip_123)
  have 3: "str_o_vacio py_nan = lit ''nan''" "str_o_vacio py_cero = []"
    by (simp_all add: str_o_vacio_def py_nan_def py_cero_def py_bool_def py_str_def)
  show ?thesis unfolding 1 2 3 str_o_vacio_VStr by simp
qed

section \<open>Edit rules: frame\<close>

lemma calcular_imc_total: "\<exists>c. calcular_imc w h = Inr c"
proof (cases "py_float (reemplaza_coma w)")
  case (Inl err)
  then have "err = ValueError" by (rule py_float_error)
  then show ?thesis using Inl by (simp add: calcular_imc_def calcular_imc_try_def)
next
  case p: (Inr p)
  show ?thesis
  proof (cases "py_float (reemplaza_coma h)")
    case (Inl err)
    then have "err = ValueError" by (rule py_float_error)
    then show ?thesis using Inl p by (simp add: calcular_imc_def calcular_imc_try_def)
  next
    case e: (Inr e)
    show ?thesis
    proof (cases "fdiv p (fmul e e)")
      case (Inl err)
      then have "err = ZeroDivisionError" by (simp add: fdiv_zero_iff)
      then show ?thesis using Inl p e
        by (simp add: calcular_imc_def calcular_imc_try_def del: fmul.simps fdiv.simps)
    next
      case (Inr q)
      then obtain r where "py_round2 q = Inr r" using py_round2_fdiv by blast
      then show ?thesis using Inr p e
        by (simp add: calcular_imc_def calcular_imc_try_def del: fmul.simps fdiv.simps)
    qed
  qed
qed

text \<open>
  C8. For every row: the edit step for the weight or the height column sets the IMC
  cell to \<open>calcular_imc\<close> of the row's current weight and height and changes
  nothing else, the tag included; the edit step for the columns Nombre, Beneficio, IMC
  and Fecha Atencion (the columns with no rule) leaves the whole row unchanged.
\<close>

theorem post_edicion_frame:
  "(\<exists>c. calcular_imc (peso f) (estatura f) = Inr c \<and>
        post_edicion padron Peso f = Inr (f\<lparr>imc := c\<rparr>) \<and>
        post_edicion padron Estatura f = Inr (f\<lparr>imc := c\<rparr>)) \<and>
   post_edicion padron Nombre f = Inr f \<and>
   post_edicion padron Beneficio f = Inr f \<and>
   post_edicion padron IMC f = Inr f \<and>
   post_edicion padron FechaAtencion f = Inr f"
proof -
  obtain c where c: "calcular_imc (peso f) (estatura f) = Inr c"
    using calcular_imc_total by blast
  have 1: "post_edicion padron Peso f = Inr (f\<lparr>imc := c\<rparr>)"
    using c by (simp add: post_edicion_def)
  have 2: "post_edicion padron Estatura f = Inr (f\<lparr>imc := c\<rparr>)"
    using c by (simp add: post_edicion_def)
  have 3: "post_edicion padron Nombre f = Inr f" "post_edicion padron Beneficio f = Inr f"
    "post_edicion padron IMC f = Inr f" "post_edicion padron FechaAtencion f = Inr f"
    by (simp_all add: post_edicion_def)
  show ?thesis using c 1 2 3 by blast
qed

section \<open>normaliza applied twice\<close>

text \<open>
  C9 at the input U+0301, space, \<open>a\<close>: \<open>normaliza\<close> strips the whitespace
  before it removes the combining marks, so the space that the mark protected is left
  at the front of the result, and a second application removes it. The result of
  \<open>normaliza\<close> is not a fixed point of \<open>normaliza\<close> here.
\<close>

theorem normaliza_leading_space:
  "normaliza (PyStr [769, 32, 97]) = [32, 97] \<and>
   normaliza (PyStr (normaliza (PyStr [769, 32, 97]))) = [97]"
  by (simp add: texto_defs)

text \<open>The result never contains a character of category Mn.\<close>

lemma normaliza_sin_Mn: "\<forall>c\<in>set (normaliza x). \<not> is_Mn c"
  by (simp add: normaliza_def Let_def)

section \<open>Blood-pressure unit\<close>

lemma contiene_iff: "contiene sub s \<longleftrightarrow> (\<exists>a b. s = a @ sub @ b)"
proof (induction s)
  case Nil
  then show ?case by auto
next
  case (Cons c s)
  have "(\<exists>a b. c # s = a @ sub @ b) \<longleftrightarrow> prefix sub (c # s) \<or> (\<exists>a b. s = a @ sub @ b)"
  proof
    assume "\<exists>a b. c # s = a @ sub @ b"
    then obtain a b where ab: "c # s = a @ sub @ b" by blast
    show "prefix sub (c # s) \<or> (\<exists>a b. s = a @ sub @ b)"
    proof (cases a)
      case Nil
      then show ?thesis using ab by (auto simp: prefix_def)
    next
      case (Cons x a')
      then have "s = a' @ sub @ b" using ab by simp
      then show ?thesis by blast
    qed
  next
    assume "prefix sub (c # s) \<or> (\<exists>a b. s = a @ sub @ b)"
    then show "\<exists>a b. c # s = a @ sub @ b"
    proof
      assume "prefix sub (c # s)"
      then obtain b where "c # s = sub @ b" by (auto simp: prefix_def)
      then have "c # s = [] @ sub @ b" by simp
      then show ?thesis by blast
    next
      assume "\<exists>a b. s = a @ sub @ b"
      then obtain a b where "s = a @ sub @ b" by blast
      then have "c # s = (c # a) @ sub @ b" by simp
      then show ?thesis by blast
    qed
  qed
  then show ?case using Cons.IH by simp
qed

lemma contiene_suffix: "contiene sub (u @ sub)"
  by (simp add: contiene_iff) (metis append_Nil2)

lemma py_strip_suffix:
  assumes "t \<noteq> []" "\<forall>c\<in>set t. \<not> py_isspace c"
  shows "\<exists>w. py_strip (ys @ t) = w @ t"
proof -
  have ht: "\<not> py_isspace (hd t)" using assms by simp
  have lt: "\<not> py_isspace (last t)" using assms by simp
  have "\<exists>w. dropWhile py_isspace (ys @ t) = w @ t"
  proof (cases "\<forall>y\<in>set ys. py_isspace y")
    case True
    then have "dropWhile py_isspace (ys @ t) = dropWhile py_isspace t" by (simp add: dropWhile_append2)
    also have "\<dots> = t" using assms(1) ht by (cases t) simp_all
    finally have "dropWhile py_isspace (ys @ t) = [] @ t" by simp
    then show ?thesis by blast
  next
    case False
    then obtain y where "y \<in> set ys" "\<not> py_isspace y" by blast
    then have "dropWhile py_isspace (ys @ t) = dropWhile py_isspace ys @ t"
      by (rule dropWhile_append1)
    then show ?thesis by blast
  qed
  then obtain w where w: "dropWhile py_isspace (ys @ t) = w @ t" by blast
  have t: "t = butlast t @ [last t]" using assms(1) by simp
  have "rev t = rev (butlast t @ [last t])" using t by (rule arg_cong)
  then have rt: "rev t = last t # rev (butlast t)" by simp
  have "dropWhile py_isspace (rev (w @ t)) = dropWhile py_isspace ((last t # rev (butlast t)) @ rev w)"
    by (simp only: rev_append rt)
  also have "\<dots> = (last t # rev (butlast t)) @ rev w" using lt by simp
  also have "\<dots> = rev (w @ t)" by (simp only: rev_append rt)
  finally have "dropWhile py_isspace (rev (w @ t)) = rev (w @ t)" .
  then have "py_strip (ys @ t) = w @ t" by (simp add: py_strip_def w)
  then show ?thesis by blast
qed

lemma normaliza_mmHg: "\<exists>u. normaliza (PyStr (xs @ lit ''mmHg'')) = u @ lit ''mmhg''"
proof -
  have l: "py_lower (xs @ lit ''mmHg'') = py_lower xs @ lit ''mmhg''"
    by (simp add: py_lower_def lower_cp_def lit_def)
  have ns: "\<forall>c\<in>set (lit ''mmhg''). \<not> py_isspace c" by (simp add: lit_def py_isspace_def)
  have ne: "lit ''mmhg'' \<noteq> []" by (simp add: lit_def)
  obtain w where w: "py_strip (py_lower xs @ lit ''mmhg'') = w @ lit ''mmhg''"
    using py_strip_suffix[OF ne ns] by blast
  have n: "py_nfd (w @ lit ''mmhg'') = py_nfd w @ lit ''mmhg''"
    by (simp add: py_nfd_def nfd_cp_def lit_def)
  have f: "filter (\<lambda>c. \<not> is_Mn c) (py_nfd w @ lit ''mmhg'') = filter (\<lambda>c. \<not> is_Mn c) (py_nfd w) @ lit ''mmhg''"
    by (simp add: is_Mn_def lit_def)
  have "normaliza (PyStr (xs @ lit ''mmHg'')) = filter (\<lambda>c. \<not> is_Mn c) (py_nfd w) @ lit ''mmhg''"
    by (simp only: normaliza_def Let_def objeto.case l w n f)
  then show ?thesis by blast
qed

lemma contiene_normaliza_mmHg: "contiene (lit ''mmhg'') (normaliza (PyStr (xs @ lit ''mmHg'')))"
  using normaliza_mmHg[of xs] contiene_suffix by auto

lemma strip_con_sufijo:
  "contiene (lit ''mmhg'') (normaliza (PyStr (py_strip (pa @ lit '' mmHg''))))"
    and "py_strip (pa @ lit '' mmHg'') \<noteq> []"
proof -
  have ns: "\<forall>c\<in>set (lit ''mmHg''). \<not> py_isspace c" by (simp add: lit_def py_isspace_def)
  have ne: "lit ''mmHg'' \<noteq> []" by (simp add: lit_def)
  have "pa @ lit '' mmHg'' = (pa @ [32]) @ lit ''mmHg''" by (simp add: lit_def)
  then obtain w where w: "py_strip (pa @ lit '' mmHg'') = w @ lit ''mmHg''"
    using py_strip_suffix[OF ne ns, of "pa @ [32]"] by auto
  show "contiene (lit ''mmhg'') (normaliza (PyStr (py_strip (pa @ lit '' mmHg''))))"
    unfolding w by (rule contiene_normaliza_mmHg)
  show "py_strip (pa @ lit '' mmHg'') \<noteq> []" unfolding w using ne by simp
qed

lemma post_edicion_presion:
  "post_edicion padron PresionArterial f =
     Inr (if py_strip (presion f) \<noteq> [] \<and>
             \<not> contiene (lit ''mmhg'') (normaliza (PyStr (py_strip (presion f))))
          then f\<lparr>presion := py_strip (presion f) @ lit '' mmHg''\<rparr> else f)"
  by (simp add: post_edicion_def Let_def)

lemma strip_120_80: "py_strip (lit ''120/80'') = lit ''120/80''"
  by (simp add: py_strip_def py_isspace_def lit_def)

lemma norm_120_80: "normaliza (PyStr (lit ''120/80'')) = lit ''120/80''"
  by (simp add: texto_defs)

lemma sin_unidad_120_80: "\<not> contiene (lit ''mmhg'') (lit ''120/80'')"
  by (simp add: lit_def)

lemma lit_120_80_ne: "lit ''120/80'' \<noteq> []"
  by (simp add: lit_def)

lemma lit_120_80_mmHg: "lit ''120/80'' @ lit '' mmHg'' = lit ''120/80 mmHg''"
  by (simp add: lit_def)

lemma strip_mmHg_120_80: "py_strip (lit ''mmHg 120/80'') = lit ''mmHg 120/80''"
  by (simp add: py_strip_def py_isspace_def lit_def)

lemma norm_mmHg_120_80: "normaliza (PyStr (lit ''mmHg 120/80'')) = lit ''mmhg 120/80''"
  by (simp add: texto_defs)

lemma con_unidad_mmHg_120_80: "contiene (lit ''mmhg'') (lit ''mmhg 120/80'')"
  by (simp add: lit_def)

text \<open>
  C3, as the code has it. The edit step for the blood-pressure column appends
  \<open>" mmHg"\<close> to the trimmed value exactly when that value is not empty and its
  normalised form does not contain \<open>mmhg\<close>, and otherwise leaves the row as it is.
  Afterwards, a value that is not empty once trimmed contains the unit token in its
  normalised form; it need not end with it.
\<close>

theorem post_edicion_presion_unit:
  fixes f :: fila
  defines "pa \<equiv> py_strip (presion f)"
  shows "\<exists>f'. post_edicion padron PresionArterial f = Inr f' \<and>
     (pa \<noteq> [] \<and> \<not> contiene (lit ''mmhg'') (normaliza (PyStr pa)) \<longrightarrow>
        f' = f\<lparr>presion := pa @ lit '' mmHg''\<rparr>) \<and>
     (pa = [] \<or> contiene (lit ''mmhg'') (normaliza (PyStr pa)) \<longrightarrow> f' = f) \<and>
     (py_strip (presion f') \<noteq> [] \<longrightarrow>
        contiene (lit ''mmhg'') (normaliza (PyStr (py_strip (presion f')))))"
proof (cases "pa \<noteq> [] \<and> \<not> contiene (lit ''mmhg'') (normaliza (PyStr pa))")
  case True
  then have "post_edicion padron PresionArterial f = Inr (f\<lparr>presion := pa @ lit '' mmHg''\<rparr>)"
    by (simp add: post_edicion_presion pa_def)
  then show ?thesis using True strip_con_sufijo(1)[of pa] by simp
next
  case False
  then have "post_edicion padron PresionArterial f = Inr f"
    by (auto simp: post_edicion_presion pa_def)
  then show ?thesis using False by (auto simp: pa_def)
qed

theorem post_edicion_presion_unit_witness:
  "py_strip (lit ''120/80'') \<noteq> [] \<and>
   \<not> contiene (lit ''mmhg'') (normaliza (PyStr (py_strip (lit ''120/80'')))) \<and>
   post_edicion [] PresionArterial (fila_vacia\<lparr>presion := lit ''120/80''\<rparr>)
     = Inr (fila_vacia\<lparr>presion := lit ''120/80 mmHg''\<rparr>)"
proof -
  define f where "f = fila_vacia\<lparr>presion := lit ''120/80''\<rparr>"
  have p: "py_strip (presion f) = lit ''120/80''" by (simp add: f_def strip_120_80)
  have a: "py_strip (presion f) \<noteq> []" unfolding p by (simp add: lit_def)
  have b: "\<not> contiene (lit ''mmhg'') (normaliza (PyStr (py_strip (presion f))))"
    unfolding p norm_120_80 by (rule sin_unidad_120_80)
  obtain f' where f': "post_edicion [] PresionArterial f = Inr f'"
    and i: "py_strip (presion f) \<noteq> [] \<and>
        \<not> contiene (lit ''mmhg'') (normaliza (PyStr (py_strip (presion f)))) \<longrightarrow>
        f' = f\<lparr>presion := py_strip (presion f) @ lit '' mmHg''\<rparr>"
    using post_edicion_presion_unit[of "[]" f] by auto
  have "f' = f\<lparr>presion := py_strip (presion f) @ lit '' mmHg''\<rparr>" using i a b by simp
  then have "post_edicion [] PresionArterial f = Inr (fila_vacia\<lparr>presion := lit ''120/80 mmHg''\<rparr>)"
    using f' by (simp add: strip_120_80 lit_120_80_mmHg f_def)
  then show ?thesis using a b by (simp add: f_def)
qed

text \<open>
  The value \<open>"mmHg 120/80"\<close> contains the token, so it is kept as it is, and it does
  not end with the unit in any letter case.
\<close>

theorem post_edicion_presion_unit_counterexample:
  "post_edicion [] PresionArterial (fila_vacia\<lparr>presion := lit ''mmHg 120/80''\<rparr>)
     = Inr (fila_vacia\<lparr>presion := lit ''mmHg 120/80''\<rparr>) \<and>
   lit ''mmHg 120/80'' \<noteq> [] \<and>
   \<not> suffix (lit ''mmhg'') (py_lower (lit ''mmHg 120/80''))"
proof -
  have "post_edicion [] PresionArterial (fila_vacia\<lparr>presion := lit ''mmHg 120/80''\<rparr>)
     = Inr (fila_vacia\<lparr>presion := lit ''mmHg 120/80''\<rparr>)"
    by (simp add: post_edicion_presion strip_mmHg_120_80 norm_mmHg_120_80 con_unidad_mmHg_120_80)
  moreover have "\<not> suffix (lit ''mmhg'') (py_lower (lit ''mmHg 120/80''))"
    by (simp add: suffix_to_prefix py_lower_def lower_cp_def lit_def)
  moreover have "lit ''mmHg 120/80'' \<noteq> []" by (simp add: lit_def)
  ultimately show ?thesis by simp
qed

text \<open>
  C4. The edit step for the blood-pressure column is idempotent: applied to its own
  result it returns that result again, so the unit is never appended twice.
  \<open>"120/80"\<close> becomes \<open>"120/80 mmHg"\<close>, and \<open>"120/80 mmHg"\<close> stays.
\<close>

theorem post_edicion_presion_idempotent:
  "(\<exists>f'. post_edicion padron PresionArterial f = Inr f' \<and>
         post_edicion padron PresionArterial f' = Inr f') \<and>
   post_edicion padron PresionArterial (f\<lparr>presion := lit ''120/80''\<rparr>)
     = Inr (f\<lparr>presion := lit ''120/80 mmHg''\<rparr>) \<and>
   post_edicion padron PresionArterial (f\<lparr>presion := lit ''120/80 mmHg''\<rparr>)
     = Inr (f\<lparr>presion := lit ''120/80 mmHg''\<rparr>)"
proof -
  have idem: "post_edicion padron PresionArterial g = Inr g' \<Longrightarrow>
      post_edicion padron PresionArterial g' = Inr g'" for g g'
  proof -
    assume g: "post_edicion padron PresionArterial g = Inr g'"
    define pa where "pa = py_strip (presion g)"
    show "post_edicion padron PresionArterial g' = Inr g'"
    proof (cases "pa \<noteq> [] \<and> \<not> contiene (lit ''mmhg'') (normaliza (PyStr pa))")
      case True
      then have "g' = g\<lparr>presion := pa @ lit '' mmHg''\<rparr>"
        using g by (simp add: post_edicion_presion pa_def)
      then show ?thesis using strip_con_sufijo(1)[of pa] by (simp add: post_edicion_presion)
    next
      case False
      then have "g' = g" using g by (auto simp: post_edicion_presion pa_def)
      then show ?thesis using g by simp
    qed
  qed
  obtain f' where f': "post_edicion padron PresionArterial f = Inr f'"
    by (simp add: post_edicion_presion)
  have 1: "post_edicion padron PresionArterial (f\<lparr>presion := lit ''120/80''\<rparr>)
     = Inr (f\<lparr>presion := lit ''120/80 mmHg''\<rparr>)"
    by (simp add: post_edicion_presion strip_120_80 norm_120_80 sin_unidad_120_80 lit_120_80_mmHg
        lit_120_80_ne)
  have 2: "post_edicion padron PresionArterial (f\<lparr>presion := lit ''120/80 mmHg''\<rparr>)
     = Inr (f\<lparr>presion := lit ''120/80 mmHg''\<rparr>)"
    using idem[OF 1] .
  show ?thesis using f' idem[OF f'] 1 2 by blast
qed

section \<open>Dates\<close>

text \<open>
  The quarterly summary reads two things of a parsed date, its year and its month; a
  \<open>datetime\<close> is modelled by its calendar date. The time of day and the time zone
  of an ISO string are checked as Python checks them, and not kept.
\<close>

record datetime =
  year :: int
  month :: int
  day :: int

definition calcular_trimestre :: "datetime \<Rightarrow> int" where
  "calcular_trimestre fecha_dt = (month fecha_dt - 1) div 3 + 1"

subsection \<open>The calendar of the \<open>datetime\<close> module\<close>

definition is_leap :: "int \<Rightarrow> bool" where
  "is_leap y = (y mod 4 = 0 \<and> (y mod 100 \<noteq> 0 \<or> y mod 400 = 0))"

definition days_in_month :: "int \<Rightarrow> int \<Rightarrow> int" where
  "days_in_month y m =
     (if m = 2 \<and> is_leap y then 29
      else [31, 28, 31, 30, 31, 30, 31, 31, 30, 31, 30, 31] ! nat (m - 1))"

definition days_before_year :: "int \<Rightarrow> int" where
  "days_before_year y = (y - 1) * 365 + (y - 1) div 4 - (y - 1) div 100 + (y - 1) div 400"

definition days_before_month :: "int \<Rightarrow> int \<Rightarrow> int" where
  "days_before_month y m =
     [0, 31, 59, 90, 120, 151, 181, 212, 243, 273, 304, 334] ! nat (m - 1)
       + (if 2 < m \<and> is_leap y then 1 else 0)"

definition ymd_to_ord :: "int \<Rightarrow> int \<Rightarrow> int \<Rightarrow> int" where
  "ymd_to_ord y m d = days_before_year y + days_before_month y m + d"

definition iso_week1_monday :: "int \<Rightarrow> int" where
  "iso_week1_monday y =
     (let first_day = ymd_to_ord y 1 1;
          first_weekday = (first_day + 6) mod 7;
          week1_monday = first_day - first_weekday
      in if 3 < first_weekday then week1_monday + 7 else week1_monday)"

definition ord_to_ymd :: "int \<Rightarrow> datetime" where
  "ord_to_ymd ordinal =
     (let o1 = ordinal - 1;
          n400 = o1 div 146097; na = o1 mod 146097;
          n100 = na div 36524; nb = na mod 36524;
          n4 = nb div 1461; nc = nb mod 1461;
          n1 = nc div 365; n = nc mod 365;
          y = n400 * 400 + 1 + n100 * 100 + n4 * 4 + n1
      in if n1 = 4 \<or> n100 = 4 then \<lparr>year = y - 1, month = 12, day = 31\<rparr>
         else let m = (n + 50) div 32; preceding = days_before_month y m
              in if n < preceding
                 then \<lparr>year = y, month = m - 1,
                        day = n - (preceding - days_in_month y (m - 1)) + 1\<rparr>
                 else \<lparr>year = y, month = m, day = n - preceding + 1\<rparr>)"

text \<open>
  An ISO week date. For the year 0000 CPython computes with negative ordinals and
  always ends in \<open>ValueError\<close>; the model refuses the year at once.
\<close>

definition iso_to_ymd :: "int \<Rightarrow> int \<Rightarrow> int \<Rightarrow> datetime option" where
  "iso_to_ymd iso_year iso_week iso_day =
     (let first_weekday = (ymd_to_ord iso_year 1 1 + 6) mod 7
      in if iso_year < 1 then None
         else if (iso_week \<le> 0 \<or> 53 \<le> iso_week) \<and>
                 \<not> (iso_week = 53 \<and>
                    (first_weekday = 3 \<or> (first_weekday = 2 \<and> is_leap iso_year)))
           then None
         else if iso_day \<le> 0 \<or> 8 \<le> iso_day then None
         else Some (ord_to_ymd (iso_week1_monday iso_year + (iso_week - 1) * 7 + iso_day - 1)))"

definition fecha_ok :: "datetime \<Rightarrow> bool" where
  "fecha_ok d = (1 \<le> year d \<and> year d \<le> 9999 \<and> 1 \<le> month d \<and> month d \<le> 12 \<and>
                 1 \<le> day d \<and> day d \<le> days_in_month (year d) (month d))"

subsection \<open>\<open>datetime.fromisoformat\<close>\<close>

text \<open>
  \<open>datetime.fromisoformat\<close> of Python 3.11 works on the UTF-8 bytes of the string,
  which end in a zero byte: \<open>rd\<close> reads a byte, and the zero past the end. The
  functions follow the C functions of the same names in \<open>_datetimemodule.c\<close>:
  \<open>find_sep\<close> is \<open>_find_isoformat_datetime_separator\<close>, \<open>parse_date\<close> is
  \<open>parse_isoformat_date\<close>, \<open>hms\<close> with \<open>fraccion\<close> is \<open>parse_hh_mm_ss_ff\<close>
  (the loop over hour, minute and second, then the fraction), \<open>parse_time\<close> is
  \<open>parse_isoformat_time\<close> together with the range checks of the constructor.
\<close>

definition utf8 :: "nat \<Rightarrow> nat list" where
  "utf8 c =
     (if c < 128 then [c]
      else if c < 2048 then [192 + c div 64, 128 + c mod 64]
      else if c < 65536 then [224 + c div 4096, 128 + (c div 64) mod 64, 128 + c mod 64]
      else [240 + c div 262144, 128 + (c div 4096) mod 64, 128 + (c div 64) mod 64,
            128 + c mod 64])"

definition es_sustituto :: "nat \<Rightarrow> bool" where
  "es_sustituto c = (55296 \<le> c \<and> c \<le> 57343)"

definition rd :: "nat list \<Rightarrow> nat \<Rightarrow> nat" where
  "rd bs i = (if i < length bs then bs ! i else 0)"

text \<open>\<open>n\<close> digits from position \<open>p\<close>: the position after them and their number.\<close>

fun parse_digits :: "nat list \<Rightarrow> nat \<Rightarrow> nat \<Rightarrow> int \<Rightarrow> (nat \<times> int) option" where
  "parse_digits bs p 0 v = Some (p, v)"
| "parse_digits bs p (Suc n) v =
     (if es_digito (rd bs p)
      then parse_digits bs (p + 1) n (v * 10 + (int (rd bs p) - 48))
      else None)"

text \<open>
  A surrogate code point is allowed as the separator only: the first one found at
  position 7, 8 or 10 is replaced by \<open>T\<close>.
\<close>

definition sanitize :: "str \<Rightarrow> str" where
  "sanitize cps =
     (if 7 < length cps \<and> es_sustituto (cps ! 7) then cps[7 := 84]
      else if 8 < length cps \<and> es_sustituto (cps ! 8) then cps[8 := 84]
      else if 10 < length cps \<and> es_sustituto (cps ! 10) then cps[10 := 84]
      else cps)"

definition n_digits_from :: "nat list \<Rightarrow> nat \<Rightarrow> nat" where
  "n_digits_from bs p = length (takeWhile es_digito (drop p bs))"

text \<open>Where the date part ends; \<open>None\<close> is the \<open>-1\<close> of the C function.\<close>

definition find_sep :: "nat list \<Rightarrow> nat option" where
  "find_sep bs =
     (let len = length bs
      in if len = 7 then Some 7
         else if rd bs 4 = 45 then
           (if rd bs 5 = 87 then
              (if len < 8 then None
               else if 8 < len \<and> rd bs 8 = 45 then
                 (if len = 9 then None
                  else if 10 < len \<and> es_digito (rd bs 10) then Some 8
                  else Some 10)
               else Some 8)
            else Some 10)
         else if rd bs 4 = 87 then
           (let idx = 7 + n_digits_from bs 7
            in if idx < 9 then Some idx else if even idx then Some 7 else Some 8)
         else Some 8)"

definition parse_date :: "nat list \<Rightarrow> nat \<Rightarrow> datetime option" where
  "parse_date bs len =
     (case parse_digits bs 0 4 0 of
        None \<Rightarrow> None
      | Some (p0, y) \<Rightarrow>
          let uses_separator = (rd bs p0 = 45);
              p = (if uses_separator then p0 + 1 else p0)
          in if rd bs p = 87 then
               (case parse_digits bs (p + 1) 2 0 of
                  None \<Rightarrow> None
                | Some (p1, iso_week) \<Rightarrow>
                    if p1 < len then
                      (if uses_separator \<and> rd bs p1 \<noteq> 45 then None
                       else (case parse_digits bs (if uses_separator then p1 + 1 else p1) 1 0 of
                               None \<Rightarrow> None
                             | Some (p2, iso_day) \<Rightarrow> iso_to_ymd y iso_week iso_day))
                    else iso_to_ymd y iso_week 1)
             else
               (case parse_digits bs p 2 0 of
                  None \<Rightarrow> None
                | Some (p1, m) \<Rightarrow>
                    if uses_separator \<and> rd bs p1 \<noteq> 45 then None
                    else (case parse_digits bs (if uses_separator then p1 + 1 else p1) 2 0 of
                            None \<Rightarrow> None
                          | Some (p2, d) \<Rightarrow> Some \<lparr>year = y, month = m, day = d\<rparr>)))"

text \<open>
  The fraction of a second: up to six digits are read, further digits are skipped;
  the result tells whether text is left, and hands back the fields read before.
\<close>

definition fraccion :: "nat list \<Rightarrow> nat \<Rightarrow> nat \<Rightarrow> int list \<Rightarrow> (bool \<times> int list) option" where
  "fraccion bs p_end p vs =
     (let len_remains = p_end - p;
          to_parse = (if 6 \<le> len_remains then 6 else len_remains)
      in case parse_digits bs p to_parse 0 of
           None \<Rightarrow> None
         | Some (p1, us) \<Rightarrow> Some (rd bs (p1 + n_digits_from bs p1) \<noteq> 0, vs))"

text \<open>
  The loop over hour, minute and second, with \<open>k\<close> rounds left and the fields read
  so far in \<open>vs\<close>; the first round decides whether the fields are separated by colons.
\<close>

fun hms :: "nat list \<Rightarrow> nat \<Rightarrow> nat \<Rightarrow> bool \<Rightarrow> nat \<Rightarrow> int list \<Rightarrow> (bool \<times> int list) option" where
  "hms bs p_end 0 has_separator p vs = fraccion bs p_end p vs"
| "hms bs p_end (Suc k) has_separator p vs =
     (case parse_digits bs p 2 0 of
        None \<Rightarrow> None
      | Some (p1, v) \<Rightarrow>
          let c = rd bs p1;
              has_sep = (if vs = [] then c = 58 else has_separator)
          in if p_end \<le> p1 + 1 then Some (c \<noteq> 0, vs @ [v])
             else if has_sep \<and> c = 58 then hms bs p_end k has_sep (p1 + 1) (vs @ [v])
             else if c = 46 \<or> c = 44 then fraccion bs p_end (p1 + 1) (vs @ [v])
             else if \<not> has_sep then hms bs p_end k has_sep p1 (vs @ [v])
             else None)"

definition campo :: "int list \<Rightarrow> nat \<Rightarrow> int" where
  "campo vs i = (if i < length vs then vs ! i else 0)"

text \<open>The position of the time zone: the first \<open>Z\<close>, \<open>+\<close> or \<open>-\<close> of the time part.\<close>

function tz_pos :: "nat list \<Rightarrow> nat \<Rightarrow> nat \<Rightarrow> nat" where
  "tz_pos bs p_end t =
     (if rd bs t = 90 \<or> rd bs t = 43 \<or> rd bs t = 45 then t
      else if t + 1 < p_end then tz_pos bs p_end (t + 1)
      else t + 1)"
  by pat_completeness auto
termination
  by (relation "measure (\<lambda>(bs, p_end, t). p_end - t)") auto

definition hora_ok :: "int list \<Rightarrow> bool" where
  "hora_ok vs = (campo vs 0 \<le> 23 \<and> campo vs 1 \<le> 59 \<and> campo vs 2 \<le> 59)"

definition parse_time :: "nat list \<Rightarrow> nat \<Rightarrow> nat \<Rightarrow> bool" where
  "parse_time bs p0 p_end =
     (let tzinfo_pos = tz_pos bs p_end p0
      in case hms bs tzinfo_pos 3 True p0 [] of
           None \<Rightarrow> False
         | Some (rv, vs) \<Rightarrow>
             if tzinfo_pos = p_end then \<not> rv \<and> hora_ok vs
             else if rd bs tzinfo_pos = 90 then rd bs (tzinfo_pos + 1) = 0 \<and> hora_ok vs
             else (case hms bs p_end 3 True (tzinfo_pos + 1) [] of
                     None \<Rightarrow> False
                   | Some (rv2, ws) \<Rightarrow>
                       \<not> rv2 \<and> hora_ok vs \<and>
                       campo ws 0 * 3600 + campo ws 1 * 60 + campo ws 2 < 86400))"

text \<open>The separator is one character, of one to four bytes.\<close>

definition tras_separador :: "nat list \<Rightarrow> nat \<Rightarrow> nat" where
  "tras_separador bs sep =
     (let b0 = rd bs sep
      in if b0 < 128 then sep + 1
         else if b0 div 16 = 14 then sep + 3
         else if b0 div 16 = 15 then sep + 4
         else sep + 2)"

definition fromisoformat :: "str \<Rightarrow> pyerror + datetime" where
  "fromisoformat dtstr =
     (if length dtstr < 7 then Inl ValueError
      else if list_ex es_sustituto (sanitize dtstr) then Inl ValueError
      else let bs = concat (map utf8 (sanitize dtstr))
           in case find_sep bs of
                None \<Rightarrow> Inl ValueError
              | Some sep \<Rightarrow>
                  (case parse_date bs sep of
                     None \<Rightarrow> Inl ValueError
                   | Some d \<Rightarrow>
                       if sep < length bs \<and>
                          \<not> parse_time bs (tras_separador bs sep) (length bs)
                       then Inl ValueError
                       else if fecha_ok d then Inr d
                       else Inl ValueError))"

subsection \<open>\<open>datetime.strptime\<close> with the format \<open>%d/%m/%Y\<close>\<close>

text \<open>
  \<open>strptime\<close> matches the regular expression of the format against the whole
  string: the day is \<open>3[0-1]\<close>, \<open>[1-2]\d\<close>, \<open>0[1-9]\<close>, \<open>[1-9]\<close> or a space and
  \<open>[1-9]\<close>; the month is \<open>1[0-2]\<close>, \<open>0[1-9]\<close> or \<open>[1-9]\<close>; the year is four
  digits; \<open>\d\<close> is any Unicode decimal digit. The date must then exist.
\<close>

definition dia_txt :: "str \<Rightarrow> int option" where
  "dia_txt t =
     (case t of
        [a] \<Rightarrow> if 49 \<le> a \<and> a \<le> 57 then Some (int a - 48) else None
      | [a, b] \<Rightarrow>
          if a = 51 \<and> (b = 48 \<or> b = 49) then Some (30 + (int b - 48))
          else if a = 49 \<or> a = 50 then
            (case valor_decimal b of
               Some d \<Rightarrow> Some ((int a - 48) * 10 + int d)
             | None \<Rightarrow> None)
          else if (a = 48 \<or> a = 32) \<and> 49 \<le> b \<and> b \<le> 57 then Some (int b - 48)
          else None
      | _ \<Rightarrow> None)"

definition mes_txt :: "str \<Rightarrow> int option" where
  "mes_txt t =
     (case t of
        [a] \<Rightarrow> if 49 \<le> a \<and> a \<le> 57 then Some (int a - 48) else None
      | [a, b] \<Rightarrow>
          if a = 49 \<and> (b = 48 \<or> b = 49 \<or> b = 50) then Some (10 + (int b - 48))
          else if a = 48 \<and> 49 \<le> b \<and> b \<le> 57 then Some (int b - 48)
          else None
      | _ \<Rightarrow> None)"

fun digitos_unicode :: "int \<Rightarrow> str \<Rightarrow> int option" where
  "digitos_unicode v [] = Some v"
| "digitos_unicode v (c # s) =
     (case valor_decimal c of
        None \<Rightarrow> None
      | Some d \<Rightarrow> digitos_unicode (v * 10 + int d) s)"

definition anio_txt :: "str \<Rightarrow> int option" where
  "anio_txt t = (if length t = 4 then digitos_unicode 0 t else None)"

definition strptime_dmy :: "str \<Rightarrow> pyerror + datetime" where
  "strptime_dmy s =
     (let a = takeWhile (\<lambda>c. c \<noteq> 47) s; r = dropWhile (\<lambda>c. c \<noteq> 47) s
      in if r = [] then Inl ValueError
         else let b = takeWhile (\<lambda>c. c \<noteq> 47) (tl r); r2 = dropWhile (\<lambda>c. c \<noteq> 47) (tl r)
              in if r2 = [] then Inl ValueError
                 else (case (dia_txt a, mes_txt b, anio_txt (tl r2)) of
                         (Some d, Some m, Some y) \<Rightarrow>
                           if fecha_ok \<lparr>year = y, month = m, day = d\<rparr>
                           then Inr \<lparr>year = y, month = m, day = d\<rparr>
                           else Inl ValueError
                       | _ \<Rightarrow> Inl ValueError))"

end
